theory Spec2Isabelle
  imports Complex_Main
begin

section \<open>Data model (convex/schema.ts)\<close>

text \<open>
  Documents are stored per table. A table is a list of pairs of a document id and the
  document's fields, the most recently inserted document first.

  A JavaScript number is a double. The numbers a client supplies unchecked (a sort order,
  a due date) are finite doubles here, that is, rational numbers, and every operation on
  them rounds as the double operation does; NaN and the infinities are not covered.
  Timestamps read from \<open>Date.now()\<close> and counts are integers, on which doubles are
  exact.

  A string is a list of UTF-16 code units; the model has the code units below 256, and
  \<open>length\<close> stands for the \<open>.length\<close> of the source.
\<close>

datatype TaskPriority = Low | Medium | High | Urgent

datatype TaskStatus = Todo | InProgress | Completed | Archived

datatype TaskActivityAction =
  Created | Updated | StatusChanged | CompletedAction | Deleted | Commented

record task =
  userId :: string
  title :: string
  description :: "string option"
  categoryId :: "nat option"
  priority :: TaskPriority
  status :: TaskStatus
  dueDate :: "rat option"
  completedAt :: "int option"
  tags :: "string list option"
  order :: rat
  createdAt :: int
  updatedAt :: int

record category =
  cat_userId :: string
  cat_name :: string
  cat_color :: string
  cat_icon :: "string option"
  cat_order :: rat
  cat_createdAt :: int
  cat_updatedAt :: int

record taskComment =
  com_taskId :: nat
  com_userId :: string
  com_content :: string
  com_createdAt :: int
  com_updatedAt :: int

text \<open>The untyped \<open>changes\<close> and \<open>metadata\<close> payloads of an activity record, as the
  task handlers fill them.\<close>

datatype change =
  TitleChange string string
| StatusChange TaskStatus TaskStatus
| PriorityChange TaskPriority TaskPriority
| OldNewStatus TaskStatus TaskStatus

record taskActivity =
  act_taskId :: nat
  act_userId :: string
  act_action :: TaskActivityAction
  act_changes :: "change list option"
  act_metadata :: "string option"
  act_createdAt :: int

type_synonym 'a table = "(nat \<times> 'a) list"

datatype table_name = Tasks | Categories | TaskComments | TaskActivity

text \<open>Every write a handler makes is appended to a journal, oldest write first.\<close>

datatype db_write = Insert table_name nat | Patch table_name nat | Delete table_name nat

record db =
  tasksTable :: "task table"
  categoriesTable :: "category table"
  taskCommentsTable :: "taskComment table"
  taskActivityTable :: "taskActivity table"
  nextId :: nat
  journal :: "db_write list"

section \<open>The platform's database primitives (ctx.db)\<close>

text \<open>
  \<open>ctx.db.get\<close>, \<open>patch\<close> and \<open>delete\<close> address a document by its id.
  The handlers below patch and delete only documents they have read in the same
  invocation; on an id that is not in the table the model leaves the table as it is.
\<close>

definition db_get :: "'a table \<Rightarrow> nat \<Rightarrow> 'a option" where
  "db_get tbl i = map_of tbl i"

definition db_patch :: "nat \<Rightarrow> ('a \<Rightarrow> 'a) \<Rightarrow> 'a table \<Rightarrow> 'a table" where
  "db_patch i f tbl = map (\<lambda>r. if fst r = i then (fst r, f (snd r)) else r) tbl"

definition db_delete :: "nat \<Rightarrow> 'a table \<Rightarrow> 'a table" where
  "db_delete i tbl = filter (\<lambda>r. fst r \<noteq> i) tbl"

text \<open>A key of a patch object is absent, present with the value \<open>undefined\<close> (the field
  is removed from the document) or present with a value.\<close>

datatype 'a field_patch = Absent | Undefined | Value 'a

definition apply_field :: "'a field_patch \<Rightarrow> 'a option \<Rightarrow> 'a option" where
  "apply_field p old = (case p of Absent \<Rightarrow> old | Undefined \<Rightarrow> None | Value v \<Rightarrow> Some v)"

definition apply_required :: "'a option \<Rightarrow> 'a \<Rightarrow> 'a" where
  "apply_required p old = (case p of None \<Rightarrow> old | Some v \<Rightarrow> v)"

definition of_optional :: "'a option \<Rightarrow> 'a field_patch" where
  "of_optional a = (case a of None \<Rightarrow> Absent | Some v \<Rightarrow> Value v)"

section \<open>Request context and errors\<close>

record rate_limit_status =
  ok :: bool
  retryAfter :: int

text \<open>
  What the platform supplies to one handler invocation: the authenticated user (if any),
  the value of \<open>Date.now()\<close>, the answer of the rate limiter for an operation name and
  key, and the text-search match of the search index (query, title).
\<close>

record ctx =
  authUser :: "string option"
  now :: int
  rateLimit :: "string \<Rightarrow> string \<Rightarrow> rate_limit_status"
  searchMatches :: "string \<Rightarrow> string \<Rightarrow> bool"

text \<open>The handlers throw \<open>Error(message)\<close>; the constructors group the messages by the
  error taxonomy and keep the message text.\<close>

datatype error =
  NotAuthenticated
| RateLimitExceeded int
| NotFound string
| NotAuthorized string
| InvalidInput string
| LimitReached string

section \<open>Constants (convex/helpers/constants.ts)\<close>

definition MAX_SEARCH_RESULTS :: nat where
  "MAX_SEARCH_RESULTS = 100"

definition MAX_CATEGORIES_PER_USER :: nat where
  "MAX_CATEGORIES_PER_USER = 50"

definition DEFAULT_PRIORITY :: TaskPriority where
  "DEFAULT_PRIORITY = Medium"

definition DEFAULT_STATUS :: TaskStatus where
  "DEFAULT_STATUS = Todo"

section \<open>Validation helpers (convex/helpers/validation.ts)\<close>

definition isValidTaskTitle :: "string \<Rightarrow> bool" where
  "isValidTaskTitle t = (length t > 0 \<and> length t \<le> 200)"

definition isValidTaskDescription :: "string \<Rightarrow> bool" where
  "isValidTaskDescription d = (length d \<le> 5000)"

definition isValidDueDate :: "int \<Rightarrow> rat \<Rightarrow> bool" where
  "isValidDueDate now_ms d =
     (let oneDayAgo = now_ms - 24 * 60 * 60 * 1000 in d \<ge> of_int oneDayAgo)"

definition isValidTags :: "string list \<Rightarrow> bool" where
  "isValidTags ts =
     (if length ts > 10 then False else list_all (\<lambda>tag. length tag > 0 \<and> length tag \<le> 30) ts)"

definition isValidCategoryName :: "string \<Rightarrow> bool" where
  "isValidCategoryName n = (length n > 0 \<and> length n \<le> 50)"

definition isHexDigit :: "char \<Rightarrow> bool" where
  "isHexDigit c = (c \<in> set ''0123456789abcdefABCDEF'')"

definition isValidHexColor :: "string \<Rightarrow> bool" where
  "isValidHexColor c =
     (case c of [] \<Rightarrow> False | h # ds \<Rightarrow> h = CHR ''#'' \<and> length ds = 6 \<and> list_all isHexDigit ds)"

definition isIconChar :: "char \<Rightarrow> bool" where
  "isIconChar c =
     (c \<in> set ''abcdefghijklmnopqrstuvwxyzABCDEFGHIJKLMNOPQRSTUVWXYZ-'')"

definition isValidIconName :: "string \<Rightarrow> bool" where
  "isValidIconName i = (length i > 0 \<and> length i \<le> 50 \<and> list_all isIconChar i)"

text \<open>\<open>String.prototype.trim\<close> strips white space and line terminators. Among the code
  units below 256 these are tab, line feed, vertical tab, form feed, carriage return,
  space and the no-break space U+00A0.\<close>

definition isSpace :: "char \<Rightarrow> bool" where
  "isSpace c =
     (c \<in> set [CHR 0x09, CHR 0x0A, CHR 0x0B, CHR 0x0C, CHR 0x0D, CHR 0x20, CHR 0xA0])"

definition trim :: "string \<Rightarrow> string" where
  "trim s = rev (dropWhile isSpace (rev (dropWhile isSpace s)))"

definition sanitizeInput :: "string \<Rightarrow> string" where
  "sanitizeInput input = trim input"

section \<open>JavaScript number arithmetic\<close>

text \<open>
  A finite IEEE 754 double is a rational number. \<open>to_double\<close> rounds a rational to the
  nearest double (53 significant bits, ties to even). The exponent range is not
  modelled: the sums, quotients and products computed by the handlers (a stored order
  plus 1, a count divided by a count, a quotient of counts times 100) neither overflow
  nor fall into the subnormal range. \<open>Math.max\<close> of finite doubles is their maximum;
  \<open>Math.round\<close> rounds half up.
\<close>

fun bit_length :: "nat \<Rightarrow> nat" where
  "bit_length n = (if n = 0 then 0 else Suc (bit_length (n div 2)))"

declare bit_length.simps [simp del]

text \<open>For \<open>x > 0\<close>, the exponent \<open>e\<close> with \<open>2 ^ e \<le> x < 2 ^ (e + 1)\<close>.\<close>

definition binade :: "rat \<Rightarrow> int" where
  "binade x =
     (let e0 = int (bit_length (nat (fst (quotient_of x)))) -
               int (bit_length (nat (snd (quotient_of x))))
      in if 2 powi e0 \<le> x then e0 else e0 - 1)"

definition round_half_even :: "rat \<Rightarrow> int" where
  "round_half_even x =
     (let f = \<lfloor>x\<rfloor>; r = x - of_int f
      in if r < 1 / 2 then f else if 1 / 2 < r then f + 1 else if even f then f else f + 1)"

definition to_double :: "rat \<Rightarrow> rat" where
  "to_double x =
     (if x = 0 then 0
      else let ulp = 2 powi (binade \<bar>x\<bar> - 52)
           in sgn x * of_int (round_half_even (\<bar>x\<bar> / ulp)) * ulp)"

definition js_add :: "rat \<Rightarrow> rat \<Rightarrow> rat" where
  "js_add x y = to_double (x + y)"

definition js_divide :: "rat \<Rightarrow> rat \<Rightarrow> rat" where
  "js_divide x y = to_double (x / y)"

definition js_multiply :: "rat \<Rightarrow> rat \<Rightarrow> rat" where
  "js_multiply x y = to_double (x * y)"

definition Math_round :: "rat \<Rightarrow> int" where
  "Math_round x = \<lfloor>x + 1 / 2\<rfloor>"

section \<open>Database layer: tasks (convex/db/tasks.ts)\<close>

definition db_insert_tasks :: "task \<Rightarrow> db \<Rightarrow> nat \<times> db" where
  "db_insert_tasks d s =
     (nextId s,
      s\<lparr>tasksTable := (nextId s, d) # tasksTable s, nextId := Suc (nextId s),
        journal := journal s @ [Insert Tasks (nextId s)]\<rparr>)"

definition db_patch_tasks :: "nat \<Rightarrow> (task \<Rightarrow> task) \<Rightarrow> db \<Rightarrow> db" where
  "db_patch_tasks i f s =
     s\<lparr>tasksTable := db_patch i f (tasksTable s), journal := journal s @ [Patch Tasks i]\<rparr>"

definition db_delete_tasks :: "nat \<Rightarrow> db \<Rightarrow> db" where
  "db_delete_tasks i s =
     s\<lparr>tasksTable := db_delete i (tasksTable s), journal := journal s @ [Delete Tasks i]\<rparr>"

record CreateTaskArgs =
  new_userId :: string
  new_title :: string
  new_description :: "string option"
  new_categoryId :: "nat option"
  new_priority :: TaskPriority
  new_status :: TaskStatus
  new_dueDate :: "rat option"
  new_tags :: "string list option"
  new_order :: rat

record UpdateTaskArgs =
  upd_title :: "string option"
  upd_description :: "string field_patch"
  upd_categoryId :: "nat field_patch"
  upd_priority :: "TaskPriority option"
  upd_status :: "TaskStatus option"
  upd_dueDate :: "rat field_patch"
  upd_completedAt :: "int field_patch"
  upd_tags :: "string list field_patch"
  upd_order :: "rat option"

definition createTask :: "ctx \<Rightarrow> CreateTaskArgs \<Rightarrow> db \<Rightarrow> nat \<times> db" where
  "createTask c args s =
     db_insert_tasks
       \<lparr>userId = new_userId args, title = new_title args,
        description = new_description args, categoryId = new_categoryId args,
        priority = new_priority args, status = new_status args,
        dueDate = new_dueDate args, completedAt = None, tags = new_tags args,
        order = new_order args, createdAt = now c, updatedAt = now c\<rparr> s"

definition getTaskById :: "db \<Rightarrow> nat \<Rightarrow> task option" where
  "getTaskById s i = db_get (tasksTable s) i"

text \<open>Index \<open>by_user\<close>, descending: the user's tasks, most recent first.\<close>

definition getTasksByUser :: "db \<Rightarrow> string \<Rightarrow> task table" where
  "getTasksByUser s u = filter (\<lambda>r. userId (snd r) = u) (tasksTable s)"

text \<open>Search index \<open>search_title\<close> with the filter fields \<open>userId\<close> and \<open>status\<close>, then
  \<open>collect()\<close>. The ranking of the platform is not modelled: matches come in table
  order.\<close>

definition searchTasks ::
  "ctx \<Rightarrow> db \<Rightarrow> string \<Rightarrow> string \<Rightarrow> TaskStatus option \<Rightarrow> task table" where
  "searchTasks c s u searchQuery st =
     filter (\<lambda>r. searchMatches c searchQuery (title (snd r)) \<and> userId (snd r) = u \<and>
                 (case st of None \<Rightarrow> True | Some x \<Rightarrow> status (snd r) = x))
       (tasksTable s)"

text \<open>Index \<open>by_category\<close>, ascending: oldest first.\<close>

definition getTasksByCategory :: "db \<Rightarrow> nat \<Rightarrow> task table" where
  "getTasksByCategory s cid = rev (filter (\<lambda>r. categoryId (snd r) = Some cid) (tasksTable s))"

definition apply_update :: "UpdateTaskArgs \<Rightarrow> int \<Rightarrow> task \<Rightarrow> task" where
  "apply_update args t_now t =
     t\<lparr>title := apply_required (upd_title args) (title t),
       description := apply_field (upd_description args) (description t),
       categoryId := apply_field (upd_categoryId args) (categoryId t),
       priority := apply_required (upd_priority args) (priority t),
       status := apply_required (upd_status args) (status t),
       dueDate := apply_field (upd_dueDate args) (dueDate t),
       completedAt := apply_field (upd_completedAt args) (completedAt t),
       tags := apply_field (upd_tags args) (tags t),
       order := apply_required (upd_order args) (order t),
       updatedAt := t_now\<rparr>"

definition updateTask :: "ctx \<Rightarrow> nat \<Rightarrow> UpdateTaskArgs \<Rightarrow> db \<Rightarrow> db" where
  "updateTask c i args s = db_patch_tasks i (apply_update args (now c)) s"

definition completeTask :: "ctx \<Rightarrow> nat \<Rightarrow> db \<Rightarrow> db" where
  "completeTask c i s =
     db_patch_tasks i
       (\<lambda>t. t\<lparr>status := Completed, completedAt := Some (now c), updatedAt := now c\<rparr>) s"

definition reopenTask :: "ctx \<Rightarrow> nat \<Rightarrow> db \<Rightarrow> db" where
  "reopenTask c i s =
     db_patch_tasks i (\<lambda>t. t\<lparr>status := Todo, completedAt := None, updatedAt := now c\<rparr>) s"

definition archiveTask :: "ctx \<Rightarrow> nat \<Rightarrow> db \<Rightarrow> db" where
  "archiveTask c i s = db_patch_tasks i (\<lambda>t. t\<lparr>status := Archived, updatedAt := now c\<rparr>) s"

definition updateTaskOrders :: "ctx \<Rightarrow> (nat \<times> rat) list \<Rightarrow> db \<Rightarrow> db" where
  "updateTaskOrders c updates s =
     fold (\<lambda>u. db_patch_tasks (fst u) (\<lambda>t. t\<lparr>order := snd u, updatedAt := now c\<rparr>)) updates s"

definition deleteTask :: "nat \<Rightarrow> db \<Rightarrow> db" where
  "deleteTask i s = db_delete_tasks i s"

definition deleteTasks :: "nat list \<Rightarrow> db \<Rightarrow> db" where
  "deleteTasks ids s = fold db_delete_tasks ids s"

section \<open>Database layer: task activity (convex/db/taskActivity.ts)\<close>

definition db_insert_taskActivity :: "taskActivity \<Rightarrow> db \<Rightarrow> nat \<times> db" where
  "db_insert_taskActivity d s =
     (nextId s,
      s\<lparr>taskActivityTable := (nextId s, d) # taskActivityTable s, nextId := Suc (nextId s),
        journal := journal s @ [Insert TaskActivity (nextId s)]\<rparr>)"

definition db_delete_taskActivity :: "nat \<Rightarrow> db \<Rightarrow> db" where
  "db_delete_taskActivity i s =
     s\<lparr>taskActivityTable := db_delete i (taskActivityTable s),
       journal := journal s @ [Delete TaskActivity i]\<rparr>"

definition createTaskActivity ::
  "ctx \<Rightarrow> nat \<Rightarrow> string \<Rightarrow> TaskActivityAction \<Rightarrow> change list option \<Rightarrow> string option \<Rightarrow>
   db \<Rightarrow> nat \<times> db" where
  "createTaskActivity c taskId u action chs meta s =
     db_insert_taskActivity
       \<lparr>act_taskId = taskId, act_userId = u, act_action = action, act_changes = chs,
        act_metadata = meta, act_createdAt = now c\<rparr> s"

definition logTaskCreated :: "ctx \<Rightarrow> nat \<Rightarrow> string \<Rightarrow> db \<Rightarrow> nat \<times> db" where
  "logTaskCreated c taskId u s = createTaskActivity c taskId u Created None None s"

definition logTaskUpdated :: "ctx \<Rightarrow> nat \<Rightarrow> string \<Rightarrow> change list \<Rightarrow> db \<Rightarrow> nat \<times> db" where
  "logTaskUpdated c taskId u chs s = createTaskActivity c taskId u Updated (Some chs) None s"

definition logStatusChanged ::
  "ctx \<Rightarrow> nat \<Rightarrow> string \<Rightarrow> TaskStatus \<Rightarrow> TaskStatus \<Rightarrow> db \<Rightarrow> nat \<times> db" where
  "logStatusChanged c taskId u oldStatus newStatus s =
     createTaskActivity c taskId u StatusChanged (Some [OldNewStatus oldStatus newStatus]) None s"

definition logTaskCompleted :: "ctx \<Rightarrow> nat \<Rightarrow> string \<Rightarrow> db \<Rightarrow> nat \<times> db" where
  "logTaskCompleted c taskId u s = createTaskActivity c taskId u CompletedAction None None s"

definition logTaskDeleted :: "ctx \<Rightarrow> nat \<Rightarrow> string \<Rightarrow> string \<Rightarrow> db \<Rightarrow> nat \<times> db" where
  "logTaskDeleted c taskId u meta s = createTaskActivity c taskId u Deleted None (Some meta) s"

text \<open>Index \<open>by_task\<close>, ascending, then one delete per document found.\<close>

definition deleteActivityByTask :: "nat \<Rightarrow> db \<Rightarrow> db" where
  "deleteActivityByTask taskId s =
     (let activities = rev (filter (\<lambda>r. act_taskId (snd r) = taskId) (taskActivityTable s))
      in fold db_delete_taskActivity (map fst activities) s)"

section \<open>Database layer: task comments (convex/db/taskComments.ts)\<close>

definition db_delete_taskComments :: "nat \<Rightarrow> db \<Rightarrow> db" where
  "db_delete_taskComments i s =
     s\<lparr>taskCommentsTable := db_delete i (taskCommentsTable s),
       journal := journal s @ [Delete TaskComments i]\<rparr>"

definition deleteCommentsByTask :: "nat \<Rightarrow> db \<Rightarrow> db" where
  "deleteCommentsByTask taskId s =
     (let comments = rev (filter (\<lambda>r. com_taskId (snd r) = taskId) (taskCommentsTable s))
      in fold db_delete_taskComments (map fst comments) s)"

section \<open>Database layer: categories (convex/db/categories.ts)\<close>

definition db_insert_categories :: "category \<Rightarrow> db \<Rightarrow> nat \<times> db" where
  "db_insert_categories d s =
     (nextId s,
      s\<lparr>categoriesTable := (nextId s, d) # categoriesTable s, nextId := Suc (nextId s),
        journal := journal s @ [Insert Categories (nextId s)]\<rparr>)"

definition db_delete_categories :: "nat \<Rightarrow> db \<Rightarrow> db" where
  "db_delete_categories i s =
     s\<lparr>categoriesTable := db_delete i (categoriesTable s),
       journal := journal s @ [Delete Categories i]\<rparr>"

definition getCategoryById :: "db \<Rightarrow> nat \<Rightarrow> category option" where
  "getCategoryById s i = db_get (categoriesTable s) i"

text \<open>Index \<open>by_user_and_order\<close>, ascending: by \<open>order\<close>, then oldest first.\<close>

definition getCategoriesByUser :: "db \<Rightarrow> string \<Rightarrow> category table" where
  "getCategoriesByUser s u =
     sort_key (\<lambda>r. cat_order (snd r))
       (rev (filter (\<lambda>r. cat_userId (snd r) = u) (categoriesTable s)))"

definition getNextCategoryOrder :: "db \<Rightarrow> string \<Rightarrow> rat" where
  "getNextCategoryOrder s u =
     (case map (\<lambda>r. cat_order (snd r))
             (rev (filter (\<lambda>r. cat_userId (snd r) = u) (categoriesTable s))) of
        [] \<Rightarrow> 0
      | x # xs \<Rightarrow> js_add (fold max xs x) 1)"

definition createCategory ::
  "ctx \<Rightarrow> string \<Rightarrow> string \<Rightarrow> string \<Rightarrow> string option \<Rightarrow> rat \<Rightarrow> db \<Rightarrow> nat \<times> db" where
  "createCategory c u name color icon ord s =
     db_insert_categories
       \<lparr>cat_userId = u, cat_name = name, cat_color = color, cat_icon = icon, cat_order = ord,
        cat_createdAt = now c, cat_updatedAt = now c\<rparr> s"

definition deleteCategory :: "nat \<Rightarrow> db \<Rightarrow> db" where
  "deleteCategory i s = db_delete_categories i s"

section \<open>Endpoint layer: tasks (convex/endpoints/tasks.ts)\<close>

text \<open>A handler returns what it returns or throws, together with the database as the
  handler left it at that moment.\<close>

definition tasks_get :: "ctx \<Rightarrow> nat \<Rightarrow> db \<Rightarrow> error + task" where
  "tasks_get c i s =
     (case authUser c of
        None \<Rightarrow> Inl NotAuthenticated
      | Some u \<Rightarrow>
         (case getTaskById s i of
            None \<Rightarrow> Inl (NotFound ''Task not found'')
          | Some t \<Rightarrow>
             if userId t \<noteq> u then Inl (NotAuthorized ''Not authorized to view this task'')
             else Inr t))"

definition tasks_search :: "ctx \<Rightarrow> string \<Rightarrow> TaskStatus option \<Rightarrow> db \<Rightarrow> error + task table" where
  "tasks_search c q st s =
     (case authUser c of
        None \<Rightarrow> Inl NotAuthenticated
      | Some u \<Rightarrow>
         if q = [] \<or> length (trim q) = 0 then Inr []
         else Inr (searchTasks c s u q st))"

record create_args =
  ca_title :: string
  ca_description :: "string option"
  ca_categoryId :: "nat option"
  ca_priority :: "TaskPriority option"
  ca_dueDate :: "rat option"
  ca_tags :: "string list option"

text \<open>The validation steps shared by create and update. \<open>x && !valid(x)\<close> skips an
  absent value and a falsy one: the empty string, the number 0; an array is never falsy.\<close>

definition descriptionRejected :: "string option \<Rightarrow> bool" where
  "descriptionRejected d =
     (case d of None \<Rightarrow> False | Some x \<Rightarrow> x \<noteq> [] \<and> \<not> isValidTaskDescription x)"

definition tagsRejected :: "string list option \<Rightarrow> bool" where
  "tagsRejected ts = (case ts of None \<Rightarrow> False | Some x \<Rightarrow> \<not> isValidTags x)"

definition dueDateRejected :: "int \<Rightarrow> rat option \<Rightarrow> bool" where
  "dueDateRejected t_now d =
     (case d of None \<Rightarrow> False | Some x \<Rightarrow> x \<noteq> 0 \<and> \<not> isValidDueDate t_now x)"

definition tasks_create :: "ctx \<Rightarrow> create_args \<Rightarrow> db \<Rightarrow> (error + nat) \<times> db" where
  "tasks_create c args s =
     (case authUser c of
        None \<Rightarrow> (Inl NotAuthenticated, s)
      | Some u \<Rightarrow>
         if \<not> ok (rateLimit c ''createTask'' u)
         then (Inl (RateLimitExceeded (retryAfter (rateLimit c ''createTask'' u))), s)
         else if \<not> isValidTaskTitle (sanitizeInput (ca_title args))
         then (Inl (InvalidInput ''Title must be between 1 and 200 characters''), s)
         else if descriptionRejected (ca_description args)
         then (Inl (InvalidInput ''Description must be less than 5000 characters''), s)
         else if tagsRejected (ca_tags args)
         then (Inl (InvalidInput ''Invalid tags: maximum 10 tags, each up to 30 characters''), s)
         else if dueDateRejected (now c) (ca_dueDate args)
         then (Inl (InvalidInput ''Invalid due date''), s)
         else
           (let existingTasks = getTasksByUser s u;
                nextOrder = (case map (\<lambda>r. order (snd r)) existingTasks of
                               [] \<Rightarrow> 0
                             | x # xs \<Rightarrow> js_add (fold max xs x) 1)
            in case createTask c
                 \<lparr>new_userId = u, new_title = sanitizeInput (ca_title args),
                  new_description = ca_description args, new_categoryId = ca_categoryId args,
                  new_priority = (case ca_priority args of None \<Rightarrow> DEFAULT_PRIORITY | Some p \<Rightarrow> p),
                  new_status = DEFAULT_STATUS, new_dueDate = ca_dueDate args,
                  new_tags = ca_tags args, new_order = nextOrder\<rparr> s of
                 (taskId, s1) \<Rightarrow>
                   (case logTaskCreated c taskId u s1 of (a, s2) \<Rightarrow> (Inr taskId, s2))))"

record update_args =
  ua_id :: nat
  ua_title :: "string option"
  ua_description :: "string option"
  ua_categoryId :: "nat option"
  ua_priority :: "TaskPriority option"
  ua_status :: "TaskStatus option"
  ua_dueDate :: "rat option"
  ua_tags :: "string list option"

text \<open>\<open>const { id, ...updateArgs } = args\<close>: the keys the request supplied.\<close>

definition updateArgs :: "update_args \<Rightarrow> UpdateTaskArgs" where
  "updateArgs args =
     \<lparr>upd_title = ua_title args, upd_description = of_optional (ua_description args),
      upd_categoryId = of_optional (ua_categoryId args), upd_priority = ua_priority args,
      upd_status = ua_status args, upd_dueDate = of_optional (ua_dueDate args),
      upd_completedAt = Absent, upd_tags = of_optional (ua_tags args), upd_order = None\<rparr>"

definition statusChanges :: "update_args \<Rightarrow> task \<Rightarrow> bool" where
  "statusChanges args t = (case ua_status args of None \<Rightarrow> False | Some x \<Rightarrow> x \<noteq> status t)"

definition trackChanges :: "update_args \<Rightarrow> task \<Rightarrow> change list" where
  "trackChanges args t =
     (case ua_title args of None \<Rightarrow> [] | Some x \<Rightarrow> [TitleChange (title t) x]) @
     (case ua_status args of None \<Rightarrow> []
      | Some x \<Rightarrow> if x \<noteq> status t then [StatusChange (status t) x] else []) @
     (case ua_priority args of None \<Rightarrow> []
      | Some x \<Rightarrow> if x \<noteq> priority t then [PriorityChange (priority t) x] else [])"

definition tasks_update :: "ctx \<Rightarrow> update_args \<Rightarrow> db \<Rightarrow> (error + nat) \<times> db" where
  "tasks_update c args s =
     (case authUser c of
        None \<Rightarrow> (Inl NotAuthenticated, s)
      | Some u \<Rightarrow>
         if \<not> ok (rateLimit c ''updateTask'' u)
         then (Inl (RateLimitExceeded (retryAfter (rateLimit c ''updateTask'' u))), s)
         else
          (case getTaskById s (ua_id args) of
             None \<Rightarrow> (Inl (NotFound ''Task not found''), s)
           | Some t \<Rightarrow>
              if userId t \<noteq> u
              then (Inl (NotAuthorized ''Not authorized to update this task''), s)
              else if (case ua_title args of None \<Rightarrow> False
                       | Some x \<Rightarrow> \<not> isValidTaskTitle (sanitizeInput x))
              then (Inl (InvalidInput ''Title must be between 1 and 200 characters''), s)
              else if descriptionRejected (ua_description args)
              then (Inl (InvalidInput ''Description must be less than 5000 characters''), s)
              else if tagsRejected (ua_tags args)
              then (Inl (InvalidInput ''Invalid tags: maximum 10 tags, each up to 30 characters''), s)
              else if dueDateRejected (now c) (ua_dueDate args)
              then (Inl (InvalidInput ''Invalid due date''), s)
              else
                (let s1 = updateTask c (ua_id args) (updateArgs args) s
                 in if statusChanges args t
                    then (case logStatusChanged c (ua_id args) u (status t)
                                 (apply_required (ua_status args) (status t)) s1 of
                            (a, s2) \<Rightarrow> (Inr (ua_id args), s2))
                    else if trackChanges args t \<noteq> []
                    then (case logTaskUpdated c (ua_id args) u (trackChanges args t) s1 of
                            (a, s2) \<Rightarrow> (Inr (ua_id args), s2))
                    else (Inr (ua_id args), s1))))"

definition tasks_complete :: "ctx \<Rightarrow> nat \<Rightarrow> db \<Rightarrow> (error + nat) \<times> db" where
  "tasks_complete c i s =
     (case authUser c of
        None \<Rightarrow> (Inl NotAuthenticated, s)
      | Some u \<Rightarrow>
         (case getTaskById s i of
            None \<Rightarrow> (Inl (NotFound ''Task not found''), s)
          | Some t \<Rightarrow>
             if userId t \<noteq> u
             then (Inl (NotAuthorized ''Not authorized to update this task''), s)
             else (case logTaskCompleted c i u (completeTask c i s) of
                     (a, s2) \<Rightarrow> (Inr i, s2))))"

definition tasks_reopen :: "ctx \<Rightarrow> nat \<Rightarrow> db \<Rightarrow> (error + nat) \<times> db" where
  "tasks_reopen c i s =
     (case authUser c of
        None \<Rightarrow> (Inl NotAuthenticated, s)
      | Some u \<Rightarrow>
         (case getTaskById s i of
            None \<Rightarrow> (Inl (NotFound ''Task not found''), s)
          | Some t \<Rightarrow>
             if userId t \<noteq> u
             then (Inl (NotAuthorized ''Not authorized to update this task''), s)
             else (case logStatusChanged c i u Completed Todo (reopenTask c i s) of
                     (a, s2) \<Rightarrow> (Inr i, s2))))"

definition tasks_archive :: "ctx \<Rightarrow> nat \<Rightarrow> db \<Rightarrow> (error + nat) \<times> db" where
  "tasks_archive c i s =
     (case authUser c of
        None \<Rightarrow> (Inl NotAuthenticated, s)
      | Some u \<Rightarrow>
         (case getTaskById s i of
            None \<Rightarrow> (Inl (NotFound ''Task not found''), s)
          | Some t \<Rightarrow>
             if userId t \<noteq> u
             then (Inl (NotAuthorized ''Not authorized to update this task''), s)
             else (case logStatusChanged c i u (status t) Archived (archiveTask c i s) of
                     (a, s2) \<Rightarrow> (Inr i, s2))))"

definition tasks_remove :: "ctx \<Rightarrow> nat \<Rightarrow> db \<Rightarrow> (error + nat) \<times> db" where
  "tasks_remove c i s =
     (case authUser c of
        None \<Rightarrow> (Inl NotAuthenticated, s)
      | Some u \<Rightarrow>
         if \<not> ok (rateLimit c ''deleteTask'' u)
         then (Inl (RateLimitExceeded (retryAfter (rateLimit c ''deleteTask'' u))), s)
         else
          (case getTaskById s i of
             None \<Rightarrow> (Inl (NotFound ''Task not found''), s)
           | Some t \<Rightarrow>
              if userId t \<noteq> u
              then (Inl (NotAuthorized ''Not authorized to delete this task''), s)
              else (case logTaskDeleted c i u (title t) s of
                      (a, s1) \<Rightarrow>
                        (Inr i, deleteTask i (deleteActivityByTask i (deleteCommentsByTask i s1))))))"

text \<open>The template literal \<open>${update.id}\<close> of the reorder messages: the id in decimal.\<close>

fun id_text :: "nat \<Rightarrow> string" where
  "id_text n =
     (if n < 10 then [''0123456789'' ! n]
      else id_text (n div 10) @ [''0123456789'' ! (n mod 10)])"

declare id_text.simps [simp del]

text \<open>The ownership loop of reorder: the first update whose task is missing or belongs to
  somebody else throws.\<close>

fun verifyOwnership :: "db \<Rightarrow> string \<Rightarrow> (nat \<times> rat) list \<Rightarrow> error option" where
  "verifyOwnership s u [] = None"
| "verifyOwnership s u (upd # rest) =
     (case getTaskById s (fst upd) of
        None \<Rightarrow> Some (NotFound (''Task '' @ id_text (fst upd) @ '' not found''))
      | Some t \<Rightarrow>
         if userId t \<noteq> u
         then Some (NotAuthorized (''Not authorized to reorder task '' @ id_text (fst upd)))
         else verifyOwnership s u rest)"

definition tasks_reorder :: "ctx \<Rightarrow> (nat \<times> rat) list \<Rightarrow> db \<Rightarrow> (error + bool) \<times> db" where
  "tasks_reorder c updates s =
     (case authUser c of
        None \<Rightarrow> (Inl NotAuthenticated, s)
      | Some u \<Rightarrow>
         (case verifyOwnership s u updates of
            Some e \<Rightarrow> (Inl e, s)
          | None \<Rightarrow> (Inr True, updateTaskOrders c updates s)))"

section \<open>Endpoint layer: categories (convex/endpoints/categories.ts)\<close>

record category_args =
  cc_name :: string
  cc_color :: string
  cc_icon :: "string option"

definition categories_create :: "ctx \<Rightarrow> category_args \<Rightarrow> db \<Rightarrow> (error + nat) \<times> db" where
  "categories_create c args s =
     (case authUser c of
        None \<Rightarrow> (Inl NotAuthenticated, s)
      | Some u \<Rightarrow>
         if \<not> ok (rateLimit c ''createCategory'' u)
         then (Inl (RateLimitExceeded (retryAfter (rateLimit c ''createCategory'' u))), s)
         else if length (getCategoriesByUser s u) \<ge> MAX_CATEGORIES_PER_USER
         then (Inl (LimitReached ''Maximum 50 categories allowed per user''), s)
         else if \<not> isValidCategoryName (sanitizeInput (cc_name args))
         then (Inl (InvalidInput ''Category name must be between 1 and 50 characters''), s)
         else if \<not> isValidHexColor (cc_color args)
         then (Inl (InvalidInput ''Invalid color format. Must be a hex color (e.g., #FF0000)''), s)
         else if (case cc_icon args of None \<Rightarrow> False
                  | Some i \<Rightarrow> i \<noteq> [] \<and> \<not> isValidIconName i)
         then (Inl (InvalidInput ''Invalid icon name''), s)
         else
           (case createCategory c u (sanitizeInput (cc_name args)) (cc_color args) (cc_icon args)
                   (getNextCategoryOrder s u) s of
              (newId, s1) \<Rightarrow> (Inr newId, s1)))"

datatype deleteMode = Unlink | DeleteTasks

text \<open>The patch \<open>{ categoryId: undefined }\<close>.\<close>

definition unlinkArgs :: UpdateTaskArgs where
  "unlinkArgs =
     \<lparr>upd_title = None, upd_description = Absent, upd_categoryId = Undefined,
      upd_priority = None, upd_status = None, upd_dueDate = Absent, upd_completedAt = Absent,
      upd_tags = Absent, upd_order = None\<rparr>"

definition categories_remove :: "ctx \<Rightarrow> nat \<Rightarrow> deleteMode \<Rightarrow> db \<Rightarrow> (error + nat) \<times> db" where
  "categories_remove c i mode s =
     (case authUser c of
        None \<Rightarrow> (Inl NotAuthenticated, s)
      | Some u \<Rightarrow>
         if \<not> ok (rateLimit c ''deleteCategory'' u)
         then (Inl (RateLimitExceeded (retryAfter (rateLimit c ''deleteCategory'' u))), s)
         else
          (case getCategoryById s i of
             None \<Rightarrow> (Inl (NotFound ''Category not found''), s)
           | Some cat \<Rightarrow>
              if cat_userId cat \<noteq> u
              then (Inl (NotAuthorized ''Not authorized to delete this category''), s)
              else
                (let tasksInCategory = getTasksByCategory s i;
                     s1 = (if mode = DeleteTasks then deleteTasks (map fst tasksInCategory) s
                           else fold (\<lambda>r. updateTask c (fst r) unlinkArgs) tasksInCategory s)
                 in (Inr i, deleteCategory i s1))))"

section \<open>Endpoint layer: dashboard (convex/endpoints/dashboard.ts)\<close>

text \<open>The summary's metrics that are computed from the user's tasks and categories. The
  overdue count, the recent-activity count and the per-table counts of the source are
  computed independently of these and are left out.\<close>

record summary_result =
  totalTasks :: nat
  todoTasks :: nat
  inProgressTasks :: nat
  completedTasks :: nat
  highPriorityTasks :: nat
  totalCategories :: nat
  completionRate :: int

definition dashboard_summary :: "ctx \<Rightarrow> db \<Rightarrow> error + summary_result" where
  "dashboard_summary c s =
     (case authUser c of
        None \<Rightarrow> Inl NotAuthenticated
      | Some u \<Rightarrow>
         (let allTasks = getTasksByUser s u;
              completed = length (filter (\<lambda>r. status (snd r) = Completed) allTasks);
              activeTasksCount = length (filter (\<lambda>r. status (snd r) \<noteq> Archived) allTasks)
          in Inr
            \<lparr>totalTasks = length allTasks,
             todoTasks = length (filter (\<lambda>r. status (snd r) = Todo) allTasks),
             inProgressTasks = length (filter (\<lambda>r. status (snd r) = InProgress) allTasks),
             completedTasks = completed,
             highPriorityTasks =
               length (filter (\<lambda>r. (priority (snd r) = High \<or> priority (snd r) = Urgent) \<and>
                                    status (snd r) \<noteq> Completed \<and> status (snd r) \<noteq> Archived)
                         allTasks),
             totalCategories = length (getCategoriesByUser s u),
             completionRate =
               (if activeTasksCount > 0
                then Math_round
                       (js_multiply (js_divide (of_nat completed) (of_nat activeTasksCount)) 100)
                else 0)\<rparr>))"

section \<open>Example states\<close>

definition ex_ctx :: ctx where
  "ex_ctx =
     \<lparr>authUser = Some ''alice'', now = 1700000000000,
      rateLimit = (\<lambda>name key. \<lparr>ok = True, retryAfter = 0\<rparr>),
      searchMatches = (\<lambda>q t. take (length q) t = q)\<rparr>"

definition ex_task :: "string \<Rightarrow> TaskStatus \<Rightarrow> rat \<Rightarrow> task" where
  "ex_task u st ord =
     \<lparr>userId = u, title = ''Write report'', description = None, categoryId = Some 7,
      priority = Medium, status = st, dueDate = None, completedAt = None, tags = None,
      order = ord, createdAt = 1690000000000, updatedAt = 1690000000000\<rparr>"

definition ex_db :: db where
  "ex_db =
     \<lparr>tasksTable = [(12, (ex_task ''bob'' Todo 9)\<lparr>categoryId := None\<rparr>),
                   (11, ex_task ''alice'' Todo 4),
               (10, ex_task ''alice'' Todo 2)],
      categoriesTable =
        [(7, \<lparr>cat_userId = ''alice'', cat_name = ''Work'', cat_color = ''#3b82f6'',
               cat_icon = None, cat_order = 0, cat_createdAt = 1680000000000,
               cat_updatedAt = 1680000000000\<rparr>)],
      taskCommentsTable =
        [(14, \<lparr>com_taskId = 11, com_userId = ''alice'', com_content = ''Started'',
               com_createdAt = 1690000000500, com_updatedAt = 1690000000500\<rparr>),
         (13, \<lparr>com_taskId = 10, com_userId = ''alice'', com_content = ''Draft done'',
               com_createdAt = 1690000000400, com_updatedAt = 1690000000400\<rparr>)],
      taskActivityTable =
        [(16, \<lparr>act_taskId = 11, act_userId = ''alice'', act_action = Created,
               act_changes = None, act_metadata = None, act_createdAt = 1690000000000\<rparr>),
         (15, \<lparr>act_taskId = 10, act_userId = ''alice'', act_action = Created,
               act_changes = None, act_metadata = None, act_createdAt = 1690000000000\<rparr>)],
      nextId = 20, journal = []\<rparr>"

text \<open>The example state after the owner of task 11 has reordered it to \<open>2 ^ 53\<close>.\<close>

definition ex_huge_db :: db where
  "ex_huge_db = snd (tasks_reorder ex_ctx [(11, 9007199254740992)] ex_db)"

definition ex_create_args :: "rat option \<Rightarrow> create_args" where
  "ex_create_args due =
     \<lparr>ca_title = '' Buy milk '', ca_description = None, ca_categoryId = None,
      ca_priority = None, ca_dueDate = due, ca_tags = Some [''home'']\<rparr>"

definition ex_update_args :: "rat option \<Rightarrow> update_args" where
  "ex_update_args due =
     \<lparr>ua_id = 11, ua_title = None, ua_description = None, ua_categoryId = None,
      ua_priority = None, ua_status = None, ua_dueDate = due, ua_tags = None\<rparr>"

definition ex_category :: category where
  "ex_category =
     \<lparr>cat_userId = ''alice'', cat_name = ''Work'', cat_color = ''#3b82f6'', cat_icon = None,
      cat_order = 0, cat_createdAt = 1680000000000, cat_updatedAt = 1680000000000\<rparr>"

definition ex_full_db :: db where
  "ex_full_db =
     \<lparr>tasksTable = [], categoriesTable = map (\<lambda>i. (i, ex_category)) (rev [0..<50]),
      taskCommentsTable = [], taskActivityTable = [], nextId = 50, journal = []\<rparr>"

definition ex_category_args :: category_args where
  "ex_category_args = \<lparr>cc_name = ''Home'', cc_color = ''#22c55e'', cc_icon = Some ''home''\<rparr>"

definition ex_status_args :: "TaskStatus \<Rightarrow> update_args" where
  "ex_status_args st =
     \<lparr>ua_id = 11, ua_title = None, ua_description = None, ua_categoryId = None,
      ua_priority = None, ua_status = Some st, ua_dueDate = None, ua_tags = None\<rparr>"

text \<open>Forty tasks of one user, none archived, 23 of them completed.\<close>

definition ex_rate_db :: db where
  "ex_rate_db =
     \<lparr>tasksTable =
        map (\<lambda>i. (i, ex_task ''alice'' Todo (of_nat i))) (rev [23..<40]) @
        map (\<lambda>i. (i, ex_task ''alice'' Completed (of_nat i))) (rev [0..<23]),
      categoriesTable = [], taskCommentsTable = [], taskActivityTable = [], nextId = 40,
      journal = []\<rparr>"

text \<open>101 tasks of one user, all with the title "Write report".\<close>

definition ex_search_db :: db where
  "ex_search_db =
     \<lparr>tasksTable = map (\<lambda>i. (i, ex_task ''alice'' Todo (of_nat i))) (rev [0..<101]),
      categoriesTable = [], taskCommentsTable = [], taskActivityTable = [], nextId = 101,
      journal = []\<rparr>"

section \<open>Facts about the database primitives\<close>

lemma db_get_patch:
  "db_get (db_patch i f tbl) j = (if j = i then map_option f (db_get tbl i) else db_get tbl j)"
  by (induction tbl) (auto simp: db_get_def db_patch_def)

lemma db_get_delete:
  "db_get (db_delete i tbl) j = (if j = i then None else db_get tbl j)"
  by (induction tbl) (auto simp: db_get_def db_delete_def)

lemma db_get_Cons: "db_get ((i, d) # tbl) j = (if j = i then Some d else db_get tbl j)"
  by (simp add: db_get_def)

lemma tasks_createTaskActivity [simp]:
  "tasksTable (snd (createTaskActivity c i u a chs m s)) = tasksTable s"
  by (simp add: createTaskActivity_def db_insert_taskActivity_def)

lemma getTaskById_createTaskActivity [simp]:
  "getTaskById (snd (createTaskActivity c i u a chs m s)) j = getTaskById s j"
  by (simp add: getTaskById_def)

lemma getTaskById_completeTask:
  "getTaskById (completeTask c i s) j =
     (if j = i
      then map_option
             (\<lambda>t. t\<lparr>status := Completed, completedAt := Some (now c), updatedAt := now c\<rparr>)
             (getTaskById s i)
      else getTaskById s j)"
  by (simp add: getTaskById_def completeTask_def db_patch_tasks_def db_get_patch)

lemma getTaskById_reopenTask:
  "getTaskById (reopenTask c i s) j =
     (if j = i
      then map_option (\<lambda>t. t\<lparr>status := Todo, completedAt := None, updatedAt := now c\<rparr>)
             (getTaskById s i)
      else getTaskById s j)"
  by (simp add: getTaskById_def reopenTask_def db_patch_tasks_def db_get_patch)

section \<open>Facts about rounding to a double\<close>

text \<open>The exponent computed by \<open>binade\<close> is the right one.\<close>

lemma bit_length_bounds:
  "0 < n \<Longrightarrow> 2 ^ (bit_length n - 1) \<le> n \<and> n < 2 ^ bit_length n"
proof (induction n rule: bit_length.induct)
  case (1 n)
  have bl: "bit_length n = Suc (bit_length (n div 2))"
    using 1(2) by (simp add: bit_length.simps [of n])
  show ?case
  proof (cases "n div 2 = 0")
    case True
    with 1(2) have "n = 1" by presburger
    then show ?thesis by (simp add: bit_length.simps)
  next
    case False
    with 1 have IH: "2 ^ (bit_length (n div 2) - 1) \<le> n div 2"
      "n div 2 < 2 ^ bit_length (n div 2)" by auto
    from False obtain k where k: "bit_length (n div 2) = Suc k"
      by (auto simp: bit_length.simps [of "n div 2"])
    from IH(1) k have "2 ^ Suc k \<le> 2 * (n div 2)" by simp
    then have lo: "2 ^ Suc k \<le> n" by presburger
    from IH(2) k have "n div 2 + 1 \<le> 2 ^ Suc k" by simp
    then have hi: "n < 2 * 2 ^ Suc k" by presburger
    from lo hi show ?thesis by (simp add: bl k)
  qed
qed

lemma binade_bounds:
  assumes "0 < x"
  shows "2 powi binade x \<le> x \<and> x < 2 powi (binade x + 1)"
proof -
  obtain n d where q: "quotient_of x = (n, d)" by (cases "quotient_of x")
  then have d: "0 < d" and x: "x = of_int n / of_int d"
    by (simp_all add: quotient_of_denom_pos quotient_of_div)
  with assms have n: "0 < n" by (simp add: zero_less_divide_iff)
  define a where "a = bit_length (nat n)"
  define b where "b = bit_length (nat d)"
  from bit_length_bounds [of "nat n"] n
  have na: "2 ^ (a - 1) \<le> nat n" "nat n < 2 ^ a" by (simp_all add: a_def)
  from bit_length_bounds [of "nat d"] d
  have db: "2 ^ (b - 1) \<le> nat d" "nat d < 2 ^ b" by (simp_all add: b_def)
  from na(2) have a0: "0 < a" by (cases a) (use n in auto)
  from db(2) have b0: "0 < b" by (cases b) (use d in auto)
  have n1: "(2::rat) ^ (a - 1) \<le> of_int n" and n2: "of_int n < (2::rat) ^ a"
    using na n of_nat_mono [of "2 ^ (a - 1)" "nat n", where 'a = rat]
      of_nat_less_iff [of "nat n" "2 ^ a", where 'a = rat] by simp_all
  have d1: "(2::rat) ^ (b - 1) \<le> of_int d" and d2: "of_int d < (2::rat) ^ b"
    using db d of_nat_mono [of "2 ^ (b - 1)" "nat d", where 'a = rat]
      of_nat_less_iff [of "nat d" "2 ^ b", where 'a = rat] by simp_all
  have e0: "binade x = (if 2 powi (int a - int b) \<le> x then int a - int b else int a - int b - 1)"
    by (simp add: binade_def q a_def b_def Let_def)
  have up: "x < 2 powi (int a - int b + 1)"
  proof -
    have "x < 2 ^ a / 2 ^ (b - 1)"
      unfolding x using n n2 d1 by (intro frac_less) simp_all
    also have "\<dots> = 2 powi (int a - int (b - 1))"
      by (simp add: power_int_diff power_int_of_nat del: of_nat_diff)
    also have "int a - int (b - 1) = int a - int b + 1" using b0 by simp
    finally show ?thesis .
  qed
  have low: "2 powi (int a - int b - 1) \<le> x"
  proof -
    have "2 powi (int a - int b - 1) = (2::rat) powi (int (a - 1) - int b)"
      using a0 by (simp add: algebra_simps of_nat_diff)
    also have "\<dots> = 2 ^ (a - 1) / 2 ^ b"
      by (simp add: power_int_diff power_int_of_nat del: of_nat_diff)
    also have "\<dots> \<le> x"
      unfolding x using d n n1 less_imp_le [OF d2] by (intro frac_le) simp_all
    finally show ?thesis .
  qed
  show ?thesis
  proof (cases "2 powi (int a - int b) \<le> x")
    case True
    with up show ?thesis by (simp add: e0)
  next
    case False
    with low show ?thesis by (simp add: e0)
  qed
qed

lemma binade_eqI:
  assumes "2 powi e \<le> x" and "x < 2 powi (e + 1)"
  shows "binade x = e"
proof -
  have "(0::rat) < 2 powi e" by simp
  then have pos: "0 < x" using assms(1) by (rule less_le_trans)
  from binade_bounds [OF pos] assms
  have "(2::rat) powi binade x < 2 powi (e + 1)" and "(2::rat) powi e < 2 powi (binade x + 1)"
    by simp_all
  then have "\<not> e + 1 \<le> binade x" and "\<not> binade x + 1 \<le> e"
    using power_int_increasing [of "e + 1" "binade x" "2::rat"]
      power_int_increasing [of "binade x + 1" e "2::rat"] by auto
  then show ?thesis by simp
qed


lemma floor_rat_numeral:
  "\<lfloor>(numeral a :: rat) / numeral b\<rfloor> = numeral a div numeral b"
  using floor_divide_of_int_eq [of "numeral a" "numeral b", where ?'a = rat] by simp

lemma to_double_eqI:
  assumes "2 powi e \<le> x" and "x < 2 powi (e + 1)"
    and "round_half_even (x / 2 powi (e - 52)) = m"
  shows "to_double x = of_int m * 2 powi (e - 52)"
proof -
  have "(0::rat) < 2 powi e" by simp
  then have "0 < x" using assms(1) by (rule less_le_trans)
  with assms(3) binade_eqI [OF assms(1,2)] show ?thesis
    by (simp add: to_double_def Let_def)
qed

text \<open>Integers up to \<open>2 ^ 53\<close> in magnitude are doubles.\<close>

lemma round_half_even_of_int: "round_half_even (of_int k) = k"
  by (simp add: round_half_even_def)

lemma to_double_of_int_pos:
  assumes "0 < k" and "k \<le> 2 ^ 53"
  shows "to_double (of_int k) = of_int k"
proof -
  define x :: rat where "x = of_int k"
  have x0: "0 < x" and x1: "1 \<le> x" and x53: "x \<le> 2 ^ 53"
    using assms by (simp_all add: x_def of_int_le_iff [of k "2 ^ 53", where ?'a = rat, simplified])
  define e where "e = binade x"
  from binade_bounds [OF x0] have lo: "2 powi e \<le> x" and hi: "x < 2 powi (e + 1)"
    by (simp_all add: e_def)
  have e0: "0 \<le> e"
  proof (rule ccontr)
    assume "\<not> 0 \<le> e"
    then have "e + 1 \<le> 0" by simp
    then have "(2::rat) powi (e + 1) \<le> 2 powi 0" by (intro power_int_increasing) simp_all
    with hi x1 show False by simp
  qed
  have e53: "e \<le> 53"
  proof (rule ccontr)
    assume "\<not> e \<le> 53"
    then have "54 \<le> e" by simp
    then have "(2::rat) powi 54 \<le> 2 powi e" by (intro power_int_increasing) simp_all
    with lo x53 show False by simp
  qed
  show ?thesis
  proof (cases "e \<le> 52")
    case True
    define n where "n = nat (52 - e)"
    from True have en: "e - 52 = - int n" by (simp add: n_def)
    have "x / 2 powi (e - 52) = of_int (k * 2 ^ n)"
      by (simp add: en power_int_minus power_int_of_nat x_def field_simps)
    then have "round_half_even (x / 2 powi (e - 52)) = k * 2 ^ n"
      by (simp only: round_half_even_of_int)
    with x0 have "to_double x = of_int (k * 2 ^ n) * 2 powi (e - 52)"
      by (simp add: to_double_def Let_def e_def)
    also have "\<dots> = x"
      by (simp add: en power_int_minus power_int_of_nat x_def field_simps)
    finally show ?thesis by (simp add: x_def)
  next
    case False
    with e53 have e: "e = 53" by simp
    with lo x53 have "x = 2 ^ 53" by simp
    then have k: "k = 2 ^ 53" by (simp add: x_def of_int_eq_iff [of k "2 ^ 53", where ?'a = rat, simplified])
    have "to_double (2 ^ 53) = of_int (2 ^ 52) * 2 powi (53 - 52)"
      by (rule to_double_eqI) (simp_all add: round_half_even_def Let_def)
    then show ?thesis by (simp add: k)
  qed
qed

lemma to_double_of_int:
  assumes "\<bar>k\<bar> \<le> 2 ^ 53"
  shows "to_double (of_int k) = of_int k"
proof -
  consider "k = 0" | "0 < k" | "k < 0" by linarith
  then show ?thesis
  proof cases
    case 1
    then show ?thesis by (simp add: to_double_def)
  next
    case 2
    with assms show ?thesis by (simp add: to_double_of_int_pos)
  next
    case 3
    with assms have "to_double (of_int (- k)) = of_int (- k)"
      by (intro to_double_of_int_pos) simp_all
    moreover have "to_double (of_int k) = - to_double (of_int (- k))"
      using 3 by (simp add: to_double_def Let_def)
    ultimately show ?thesis by simp
  qed
qed

section \<open>Completing and reopening\<close>

text \<open>
  C6. For a task owned by the caller, the complete handler succeeds and leaves the task
  with status completed and a completion timestamp (the current time); the reopen
  handler succeeds and leaves the task with status todo and no completion timestamp.
\<close>

theorem complete_then_reopen:
  assumes "authUser c = Some u" and "getTaskById s i = Some t" and "userId t = u"
  shows "fst (tasks_complete c i s) = Inr i \<and>
         (\<exists>t'. getTaskById (snd (tasks_complete c i s)) i = Some t' \<and>
               status t' = Completed \<and> completedAt t' = Some (now c)) \<and>
         fst (tasks_reopen c i s) = Inr i \<and>
         (\<exists>t'. getTaskById (snd (tasks_reopen c i s)) i = Some t' \<and>
               status t' = Todo \<and> completedAt t' = None)"
  using assms
  by (simp add: tasks_complete_def tasks_reopen_def logTaskCompleted_def logStatusChanged_def
      getTaskById_completeTask getTaskById_reopenTask case_prod_unfold)

theorem complete_then_reopen_witness:
  "authUser ex_ctx = Some ''alice'' \<and> getTaskById ex_db 11 = Some (ex_task ''alice'' Todo 4) \<and>
   fst (tasks_complete ex_ctx 11 ex_db) = Inr 11 \<and>
   (\<exists>t'. getTaskById (snd (tasks_complete ex_ctx 11 ex_db)) 11 = Some t' \<and>
         status t' = Completed \<and> completedAt t' = Some 1700000000000) \<and>
   fst (tasks_reopen ex_ctx 11 ex_db) = Inr 11 \<and>
   (\<exists>t'. getTaskById (snd (tasks_reopen ex_ctx 11 ex_db)) 11 = Some t' \<and>
         status t' = Todo \<and> completedAt t' = None)"
proof -
  have a: "authUser ex_ctx = Some ''alice''" by (simp add: ex_ctx_def)
  have g: "getTaskById ex_db 11 = Some (ex_task ''alice'' Todo 4)"
    by (simp add: getTaskById_def ex_db_def db_get_def)
  have o: "userId (ex_task ''alice'' Todo 4) = ''alice''" by (simp add: ex_task_def)
  have n: "now ex_ctx = 1700000000000" by (simp add: ex_ctx_def)
  show ?thesis using complete_then_reopen [OF a g o] a g n by simp
qed

section \<open>The order of a new task\<close>

lemma math_max_next:
  "(case map f xs of [] \<Rightarrow> 0 | x # ys \<Rightarrow> js_add (fold max ys x) 1) =
   (if xs = [] then (0::rat) else to_double (Max (set (map f xs)) + 1))"
proof (cases xs)
  case Nil
  then show ?thesis by simp
next
  case (Cons r rs)
  have "fold max (map f rs) (f r) = Max (set (f r # map f rs))"
    by (rule Max.set_eq_fold [symmetric])
  with Cons show ?thesis by (simp add: js_add_def)
qed

lemma tasks_create_success:
  assumes "authUser c = Some u" and "ok (rateLimit c ''createTask'' u)"
    and "isValidTaskTitle (sanitizeInput (ca_title args))"
    and "\<not> descriptionRejected (ca_description args)"
    and "\<not> tagsRejected (ca_tags args)"
    and "\<not> dueDateRejected (now c) (ca_dueDate args)"
  shows "fst (tasks_create c args s) = Inr (nextId s)"
  using assms
  by (simp add: tasks_create_def Let_def case_prod_unfold createTask_def db_insert_tasks_def)

text \<open>What a successful create leaves in the task table.\<close>

lemma tasks_create_table:
  assumes "authUser c = Some u" and "fst (tasks_create c args s) = Inr i"
  shows "i = nextId s"
    and "tasksTable (snd (tasks_create c args s)) =
      (nextId s, \<lparr>userId = u, title = sanitizeInput (ca_title args),
         description = ca_description args, categoryId = ca_categoryId args,
         priority = (case ca_priority args of None \<Rightarrow> DEFAULT_PRIORITY | Some p \<Rightarrow> p),
         status = DEFAULT_STATUS, dueDate = ca_dueDate args, completedAt = None,
         tags = ca_tags args,
         order = (if filter (\<lambda>r. userId (snd r) = u) (tasksTable s) = [] then 0
                  else to_double (Max (set (map (\<lambda>r. order (snd r))
                         (filter (\<lambda>r. userId (snd r) = u) (tasksTable s)))) + 1)),
         createdAt = now c, updatedAt = now c\<rparr>) # tasksTable s"
  using assms
  by (auto simp: tasks_create_def Let_def logTaskCreated_def case_prod_unfold createTask_def
      db_insert_tasks_def math_max_next getTasksByUser_def split: if_splits)

text \<open>
  C4 (as amended). When the create-task handler succeeds for user \<open>u\<close>, the task it
  created is owned by \<open>u\<close>; its order is 0 if \<open>u\<close> had no tasks, and otherwise the sum,
  rounded to a double, of 1 and the maximum order among \<open>u\<close>'s existing tasks. That sum
  is exactly the maximum plus 1 whenever the maximum is an integer below \<open>2 ^ 53\<close> in
  magnitude.
\<close>

theorem create_assigns_next_order:
  assumes "authUser c = Some u" and "fst (tasks_create c args s) = Inr i"
    and "existing = filter (\<lambda>r. userId (snd r) = u) (tasksTable s)"
  shows "\<exists>t. getTaskById (snd (tasks_create c args s)) i = Some t \<and> userId t = u \<and>
             (existing = [] \<longrightarrow> order t = 0) \<and>
             (existing \<noteq> [] \<longrightarrow>
                order t = to_double (Max (set (map (\<lambda>r. order (snd r)) existing)) + 1)) \<and>
             (\<forall>k. existing \<noteq> [] \<and> Max (set (map (\<lambda>r. order (snd r)) existing)) = of_int k \<and>
                  \<bar>k\<bar> < 2 ^ 53 \<longrightarrow>
                order t = Max (set (map (\<lambda>r. order (snd r)) existing)) + 1)"
proof -
  note tbl = tasks_create_table [OF assms(1,2)]
  have exact: "to_double (of_int k + 1) = of_int k + 1" if "\<bar>k\<bar> < 2 ^ 53" for k :: int
  proof -
    from that have "\<bar>k + 1\<bar> \<le> 2 ^ 53" by simp
    then have "to_double (of_int (k + 1)) = of_int (k + 1)" by (rule to_double_of_int)
    then show ?thesis by simp
  qed
  show ?thesis
    by (auto simp: getTaskById_def tbl db_get_Cons assms(3) exact)
qed

lemma ex_validations:
  "isValidTaskTitle (sanitizeInput (ca_title (ex_create_args due)))"
  "\<not> descriptionRejected (ca_description (ex_create_args due))"
  "\<not> tagsRejected (ca_tags (ex_create_args due))"
  by (simp_all add: ex_create_args_def isValidTaskTitle_def sanitizeInput_def trim_def
      isSpace_def descriptionRejected_def tagsRejected_def isValidTags_def)

lemma ex_ctx_simps:
  "authUser ex_ctx = Some ''alice''" "now ex_ctx = 1700000000000"
  "ok (rateLimit ex_ctx name key)"
  by (simp_all add: ex_ctx_def)

lemma ex_create_ok:
  "fst (tasks_create ex_ctx (ex_create_args None) s) = Inr (nextId s)"
proof -
  have "\<not> dueDateRejected (now ex_ctx) (ca_dueDate (ex_create_args None))"
    by (simp add: ex_create_args_def dueDateRejected_def)
  then show ?thesis
    using ex_ctx_simps ex_validations by (intro tasks_create_success [where u = "''alice''"])
qed

lemma ex_create_result:
  "fst (tasks_create ex_ctx (ex_create_args None) ex_db) = Inr 20"
  by (simp add: ex_create_ok) (simp add: ex_db_def)

lemma ex_alice_tasks:
  "filter (\<lambda>r. userId (snd r) = ''alice'') (tasksTable ex_db) =
     [(11, ex_task ''alice'' Todo 4), (10, ex_task ''alice'' Todo 2)]"
  by (simp add: ex_db_def ex_task_def)

lemma ex_huge_db_eq:
  "ex_huge_db =
     ex_db\<lparr>tasksTable :=
              [(12, (ex_task ''bob'' Todo 9)\<lparr>categoryId := None\<rparr>),
               (11, (ex_task ''alice'' Todo 4)
                      \<lparr>order := 9007199254740992, updatedAt := 1700000000000\<rparr>),
               (10, ex_task ''alice'' Todo 2)],
            journal := [Patch Tasks 11]\<rparr>"
proof -
  have "verifyOwnership ex_db ''alice'' [(11, 9007199254740992)] = None"
    by (simp add: getTaskById_def ex_db_def db_get_def ex_task_def)
  then have "ex_huge_db = updateTaskOrders ex_ctx [(11, 9007199254740992)] ex_db"
    by (simp add: ex_huge_db_def tasks_reorder_def ex_ctx_simps)
  then show ?thesis
    by (simp add: updateTaskOrders_def db_patch_tasks_def db_patch_def ex_db_def ex_task_def
        ex_ctx_simps)
qed

lemma to_double_above_2_53: "to_double 9007199254740993 = 9007199254740992"
proof -
  have "to_double 9007199254740993 = of_int 4503599627370496 * 2 powi (53 - 52)"
    by (rule to_double_eqI) (simp_all add: round_half_even_def Let_def floor_rat_numeral)
  then show ?thesis by simp
qed


text \<open>
  A sort order is any number the owner sends to the reorder handler. After task 11 has
  been given the order \<open>2 ^ 53\<close>, the next task created gets the order \<open>2 ^ 53\<close> again:
  \<open>2 ^ 53 + 1\<close> is not a double.
\<close>

theorem create_after_order_2_53_counterexample:
  "fst (tasks_reorder ex_ctx [(11, 9007199254740992)] ex_db) = Inr True \<and>
   map_option userId (getTaskById ex_huge_db 11) = Some ''alice'' \<and>
   map_option order (getTaskById ex_huge_db 11) = Some 9007199254740992 \<and>
   map_option userId (getTaskById ex_huge_db 10) = Some ''alice'' \<and>
   map_option order (getTaskById ex_huge_db 10) = Some 2 \<and>
   map_option userId (getTaskById ex_huge_db 12) = Some ''bob'' \<and>
   fst (tasks_create ex_ctx (ex_create_args None) ex_huge_db) = Inr 20 \<and>
   map_option order
     (getTaskById (snd (tasks_create ex_ctx (ex_create_args None) ex_huge_db)) 20) =
     Some 9007199254740992 \<and>
   map_option order
     (getTaskById (snd (tasks_create ex_ctx (ex_create_args None) ex_huge_db)) 20) \<noteq>
     Some (9007199254740992 + 1)"
proof -
  have n: "nextId ex_huge_db = 20"
    by (simp add: ex_huge_db_eq) (simp add: ex_db_def)
  have f: "filter (\<lambda>r. userId (snd r) = ''alice'') (tasksTable ex_huge_db) =
      [(11, (ex_task ''alice'' Todo 4)
              \<lparr>order := 9007199254740992, updatedAt := 1700000000000\<rparr>),
       (10, ex_task ''alice'' Todo 2)]"
    by (simp add: ex_huge_db_eq ex_task_def)
  have r: "fst (tasks_create ex_ctx (ex_create_args None) ex_huge_db) = Inr 20"
    by (simp add: ex_create_ok n)
  have "map_option order
     (getTaskById (snd (tasks_create ex_ctx (ex_create_args None) ex_huge_db)) 20) =
     Some (to_double (9007199254740992 + 1))"
    by (simp add: getTaskById_def tasks_create_table(2) [OF ex_ctx_simps(1) r] n db_get_Cons f)
       (simp add: ex_task_def)
  then have eq: "map_option order
     (getTaskById (snd (tasks_create ex_ctx (ex_create_args None) ex_huge_db)) 20) =
     Some 9007199254740992"
    by (simp add: to_double_above_2_53)
  have v: "verifyOwnership ex_db ''alice'' [(11, 9007199254740992)] = None"
    by (simp add: getTaskById_def ex_db_def db_get_def ex_task_def)
  from v have o: "fst (tasks_reorder ex_ctx [(11, 9007199254740992)] ex_db) = Inr True"
    by (simp add: tasks_reorder_def ex_ctx_simps)
  have g: "map_option userId (getTaskById ex_huge_db 11) = Some ''alice''"
    "map_option order (getTaskById ex_huge_db 11) = Some 9007199254740992"
    "map_option userId (getTaskById ex_huge_db 10) = Some ''alice''"
    "map_option order (getTaskById ex_huge_db 10) = Some 2"
    "map_option userId (getTaskById ex_huge_db 12) = Some ''bob''"
    by (simp_all add: getTaskById_def db_get_def ex_huge_db_eq ex_task_def)
  show ?thesis
    by (simp only: eq r o g) simp
qed

lemma ex_full_db_no_tasks:
  "filter (\<lambda>r. userId (snd r) = u) (tasksTable ex_full_db) = []" "nextId ex_full_db = 50"
  by (simp_all add: ex_full_db_def)

theorem create_assigns_next_order_witness:
  "authUser ex_ctx = Some ''alice'' \<and>
   fst (tasks_create ex_ctx (ex_create_args None) ex_db) = Inr 20 \<and>
   map_option order (getTaskById ex_db 11) = Some 4 \<and>
   map_option order (getTaskById ex_db 10) = Some 2 \<and>
   map_option order (getTaskById ex_db 12) = Some 9 \<and>
   (\<exists>t. getTaskById (snd (tasks_create ex_ctx (ex_create_args None) ex_db)) 20 = Some t \<and>
        userId t = ''alice'' \<and> order t = 5) \<and>
   fst (tasks_create ex_ctx (ex_create_args None) ex_full_db) = Inr 50 \<and>
   (\<exists>t. getTaskById (snd (tasks_create ex_ctx (ex_create_args None) ex_full_db)) 50 = Some t \<and>
        userId t = ''alice'' \<and> order t = 0)"
proof -
  have m: "Max (set (map (\<lambda>r. order (snd r))
      (filter (\<lambda>r. userId (snd r) = ''alice'') (tasksTable ex_db)))) = of_int 4"
    by (simp add: ex_alice_tasks ex_task_def)
  have o: "map_option order (getTaskById ex_db 11) = Some 4"
    "map_option order (getTaskById ex_db 10) = Some 2"
    "map_option order (getTaskById ex_db 12) = Some 9"
    by (simp_all add: getTaskById_def db_get_def ex_db_def ex_task_def)
  have ne: "filter (\<lambda>r. userId (snd r) = ''alice'') (tasksTable ex_db) \<noteq> []"
    by (simp add: ex_alice_tasks)
  have k: "\<bar>4 :: int\<bar> < 2 ^ 53" by simp
  have r50: "fst (tasks_create ex_ctx (ex_create_args None) ex_full_db) = Inr 50"
    by (simp add: ex_create_ok ex_full_db_no_tasks)
  from create_assigns_next_order [OF ex_ctx_simps(1) ex_create_result refl] ne m k
  have "\<exists>t. getTaskById (snd (tasks_create ex_ctx (ex_create_args None) ex_db)) 20 = Some t \<and>
        userId t = ''alice'' \<and> order t = of_int 4 + 1"
    by metis
  moreover from create_assigns_next_order [OF ex_ctx_simps(1) r50 refl]
  have "\<exists>t. getTaskById (snd (tasks_create ex_ctx (ex_create_args None) ex_full_db)) 50 =
          Some t \<and> userId t = ''alice'' \<and> order t = 0"
    by (auto simp: ex_full_db_no_tasks)
  ultimately show ?thesis
    using ex_create_result r50 o by (simp add: ex_ctx_simps)
qed

section \<open>Due dates\<close>

lemma getTaskById_db_patch_tasks:
  "getTaskById (db_patch_tasks i f s) j =
     (if j = i then map_option f (getTaskById s i) else getTaskById s j)"
  by (simp add: getTaskById_def db_patch_tasks_def db_get_patch)

lemma getTaskById_updateTask:
  "getTaskById (updateTask c i args s) j =
     (if j = i then map_option (apply_update args (now c)) (getTaskById s i)
      else getTaskById s j)"
  by (simp add: updateTask_def getTaskById_db_patch_tasks)

lemma tasks_update_success:
  assumes "authUser c = Some u" and "ok (rateLimit c ''updateTask'' u)"
    and "getTaskById s (ua_id args) = Some t" and "userId t = u"
    and "\<forall>x. ua_title args = Some x \<longrightarrow> isValidTaskTitle (sanitizeInput x)"
    and "\<not> descriptionRejected (ua_description args)"
    and "\<not> tagsRejected (ua_tags args)"
    and "\<not> dueDateRejected (now c) (ua_dueDate args)"
  shows "fst (tasks_update c args s) = Inr (ua_id args)"
  using assms
  by (auto simp: tasks_update_def Let_def case_prod_unfold split: option.splits)

lemma tasks_update_task:
  assumes "fst (tasks_update c args s) = Inr i" and "getTaskById s (ua_id args) = Some t"
  shows "getTaskById (snd (tasks_update c args s)) (ua_id args) =
         Some (apply_update (updateArgs args) (now c) t)"
  using assms
  by (auto simp: tasks_update_def Let_def case_prod_unfold logStatusChanged_def
      logTaskUpdated_def getTaskById_updateTask split: option.splits if_splits)

lemma dueDateRejected_iff:
  "dueDateRejected t_now (Some d) = (d \<noteq> 0 \<and> d < of_int t_now - 24 * 60 * 60 * 1000)"
  by (auto simp: dueDateRejected_def isValidDueDate_def Let_def)

lemma tasks_create_rejects_due:
  assumes "authUser c = Some u" and "ok (rateLimit c ''createTask'' u)"
    and "dueDateRejected (now c) (ca_dueDate args)"
  shows "\<exists>m. tasks_create c args s = (Inl (InvalidInput m), s)"
    and "isValidTaskTitle (sanitizeInput (ca_title args)) \<Longrightarrow>
         \<not> descriptionRejected (ca_description args) \<Longrightarrow> \<not> tagsRejected (ca_tags args) \<Longrightarrow>
         tasks_create c args s = (Inl (InvalidInput ''Invalid due date''), s)"
  using assms by (simp_all add: tasks_create_def)

lemma tasks_update_rejects_due:
  assumes "authUser c = Some u" and "ok (rateLimit c ''updateTask'' u)"
    and "getTaskById s (ua_id args) = Some t" and "userId t = u"
    and "dueDateRejected (now c) (ua_dueDate args)"
  shows "\<exists>m. tasks_update c args s = (Inl (InvalidInput m), s)"
    and "\<forall>x. ua_title args = Some x \<longrightarrow> isValidTaskTitle (sanitizeInput x) \<Longrightarrow>
         \<not> descriptionRejected (ua_description args) \<Longrightarrow> \<not> tagsRejected (ua_tags args) \<Longrightarrow>
         tasks_update c args s = (Inl (InvalidInput ''Invalid due date''), s)"
  using assms by (auto simp: tasks_update_def split: option.splits)

lemma tasks_create_accepts_due:
  assumes "authUser c = Some u" and "ok (rateLimit c ''createTask'' u)"
    and "isValidTaskTitle (sanitizeInput (ca_title args))"
    and "\<not> descriptionRejected (ca_description args)"
    and "\<not> tagsRejected (ca_tags args)"
    and "\<not> dueDateRejected (now c) (ca_dueDate args)"
  shows "fst (tasks_create c args s) = Inr (nextId s) \<and>
         (\<exists>t. getTaskById (snd (tasks_create c args s)) (nextId s) = Some t \<and>
              dueDate t = ca_dueDate args)"
proof -
  have r: "fst (tasks_create c args s) = Inr (nextId s)"
    using assms by (rule tasks_create_success)
  show ?thesis
    by (simp add: r getTaskById_def tasks_create_table(2) [OF assms(1) r] db_get_Cons)
qed

lemma tasks_update_accepts_due:
  assumes "authUser c = Some u" and "ok (rateLimit c ''updateTask'' u)"
    and "getTaskById s (ua_id args) = Some t" and "userId t = u"
    and "\<forall>x. ua_title args = Some x \<longrightarrow> isValidTaskTitle (sanitizeInput x)"
    and "\<not> descriptionRejected (ua_description args)"
    and "\<not> tagsRejected (ua_tags args)"
    and "\<not> dueDateRejected (now c) (ua_dueDate args)"
    and "ua_dueDate args = Some d"
  shows "fst (tasks_update c args s) = Inr (ua_id args) \<and>
         (\<exists>t'. getTaskById (snd (tasks_update c args s)) (ua_id args) = Some t' \<and>
               dueDate t' = Some d)"
proof -
  have r: "fst (tasks_update c args s) = Inr (ua_id args)"
    using assms(1-8) by (rule tasks_update_success)
  show ?thesis
    by (simp add: r tasks_update_task [OF r assms(3)] apply_update_def updateArgs_def
        assms(9) of_optional_def apply_field_def)
qed

text \<open>
  C9. A create request by an authenticated caller within the rate limit that supplies a
  non-zero due date is rejected as invalid input, with nothing written, when the due
  date is earlier than 24 hours before the current time (with the message "Invalid due
  date" when the other validations pass); when the due date is at or after that bound
  and the other validations pass, the task is created with that due date. The same holds
  for an update request by an authenticated caller within the rate limit who owns the
  task.
\<close>

theorem due_date_not_before_yesterday:
  "(authUser c = Some u \<and> ok (rateLimit c ''createTask'' u) \<and>
    ca_dueDate args = Some d \<and> d \<noteq> 0 \<longrightarrow>
      (d < of_int (now c) - 24 * 60 * 60 * 1000 \<longrightarrow>
         (\<exists>m. tasks_create c args s = (Inl (InvalidInput m), s)) \<and>
         (isValidTaskTitle (sanitizeInput (ca_title args)) \<and>
          \<not> descriptionRejected (ca_description args) \<and> \<not> tagsRejected (ca_tags args) \<longrightarrow>
          tasks_create c args s = (Inl (InvalidInput ''Invalid due date''), s))) \<and>
      (of_int (now c) - 24 * 60 * 60 * 1000 \<le> d \<and>
       isValidTaskTitle (sanitizeInput (ca_title args)) \<and>
       \<not> descriptionRejected (ca_description args) \<and> \<not> tagsRejected (ca_tags args) \<longrightarrow>
         fst (tasks_create c args s) = Inr (nextId s) \<and>
         (\<exists>t. getTaskById (snd (tasks_create c args s)) (nextId s) = Some t \<and>
              dueDate t = Some d))) \<and>
   (authUser c' = Some u' \<and> ok (rateLimit c' ''updateTask'' u') \<and>
    getTaskById s' (ua_id uargs) = Some t0 \<and> userId t0 = u' \<and>
    ua_dueDate uargs = Some d' \<and> d' \<noteq> 0 \<longrightarrow>
      (d' < of_int (now c') - 24 * 60 * 60 * 1000 \<longrightarrow>
         (\<exists>m. tasks_update c' uargs s' = (Inl (InvalidInput m), s')) \<and>
         ((\<forall>x. ua_title uargs = Some x \<longrightarrow> isValidTaskTitle (sanitizeInput x)) \<and>
          \<not> descriptionRejected (ua_description uargs) \<and> \<not> tagsRejected (ua_tags uargs) \<longrightarrow>
          tasks_update c' uargs s' = (Inl (InvalidInput ''Invalid due date''), s'))) \<and>
      (of_int (now c') - 24 * 60 * 60 * 1000 \<le> d' \<and>
       (\<forall>x. ua_title uargs = Some x \<longrightarrow> isValidTaskTitle (sanitizeInput x)) \<and>
       \<not> descriptionRejected (ua_description uargs) \<and> \<not> tagsRejected (ua_tags uargs) \<longrightarrow>
         fst (tasks_update c' uargs s') = Inr (ua_id uargs) \<and>
         (\<exists>t. getTaskById (snd (tasks_update c' uargs s')) (ua_id uargs) = Some t \<and>
              dueDate t = Some d')))"
proof (intro conjI impI)
  assume h: "authUser c = Some u \<and> ok (rateLimit c ''createTask'' u) \<and>
    ca_dueDate args = Some d \<and> d \<noteq> 0"
  {
    assume "d < of_int (now c) - 24 * 60 * 60 * 1000"
    with h have rej: "dueDateRejected (now c) (ca_dueDate args)"
      by (simp add: dueDateRejected_iff)
    from h rej show "\<exists>m. tasks_create c args s = (Inl (InvalidInput m), s)"
      by (intro tasks_create_rejects_due(1) [where u = u]) simp_all
    assume "isValidTaskTitle (sanitizeInput (ca_title args)) \<and>
          \<not> descriptionRejected (ca_description args) \<and> \<not> tagsRejected (ca_tags args)"
    with h rej show "tasks_create c args s = (Inl (InvalidInput ''Invalid due date''), s)"
      by (intro tasks_create_rejects_due(2) [where u = u]) simp_all
  }
  assume v: "of_int (now c) - 24 * 60 * 60 * 1000 \<le> d \<and>
       isValidTaskTitle (sanitizeInput (ca_title args)) \<and>
       \<not> descriptionRejected (ca_description args) \<and> \<not> tagsRejected (ca_tags args)"
  with h have "\<not> dueDateRejected (now c) (ca_dueDate args)"
    by (simp add: dueDateRejected_iff)
  with h v have acc: "fst (tasks_create c args s) = Inr (nextId s) \<and>
         (\<exists>t. getTaskById (snd (tasks_create c args s)) (nextId s) = Some t \<and>
              dueDate t = ca_dueDate args)"
    by (intro tasks_create_accepts_due [where u = u]) simp_all
  from acc show "fst (tasks_create c args s) = Inr (nextId s)" by simp
  from acc h show "\<exists>t. getTaskById (snd (tasks_create c args s)) (nextId s) = Some t \<and>
              dueDate t = Some d" by simp
next
  assume h: "authUser c' = Some u' \<and> ok (rateLimit c' ''updateTask'' u') \<and>
    getTaskById s' (ua_id uargs) = Some t0 \<and> userId t0 = u' \<and>
    ua_dueDate uargs = Some d' \<and> d' \<noteq> 0"
  {
    assume "d' < of_int (now c') - 24 * 60 * 60 * 1000"
    with h have rej: "dueDateRejected (now c') (ua_dueDate uargs)"
      by (simp add: dueDateRejected_iff)
    from h rej show "\<exists>m. tasks_update c' uargs s' = (Inl (InvalidInput m), s')"
      by (intro tasks_update_rejects_due(1) [where u = u' and t = t0]) simp_all
    assume "(\<forall>x. ua_title uargs = Some x \<longrightarrow> isValidTaskTitle (sanitizeInput x)) \<and>
          \<not> descriptionRejected (ua_description uargs) \<and> \<not> tagsRejected (ua_tags uargs)"
    with h rej show "tasks_update c' uargs s' = (Inl (InvalidInput ''Invalid due date''), s')"
      by (intro tasks_update_rejects_due(2) [where u = u' and t = t0]) simp_all
  }
  assume v: "of_int (now c') - 24 * 60 * 60 * 1000 \<le> d' \<and>
       (\<forall>x. ua_title uargs = Some x \<longrightarrow> isValidTaskTitle (sanitizeInput x)) \<and>
       \<not> descriptionRejected (ua_description uargs) \<and> \<not> tagsRejected (ua_tags uargs)"
  with h have "\<not> dueDateRejected (now c') (ua_dueDate uargs)"
    by (simp add: dueDateRejected_iff)
  with h v have acc: "fst (tasks_update c' uargs s') = Inr (ua_id uargs) \<and>
         (\<exists>t. getTaskById (snd (tasks_update c' uargs s')) (ua_id uargs) = Some t \<and>
              dueDate t = Some d')"
    by (intro tasks_update_accepts_due [where u = u' and t = t0]) simp_all
  from acc show "fst (tasks_update c' uargs s') = Inr (ua_id uargs)" by simp
  from acc show "\<exists>t. getTaskById (snd (tasks_update c' uargs s')) (ua_id uargs) = Some t \<and>
              dueDate t = Some d'" by simp
qed


lemma ex_update_validations:
  "\<forall>x. ua_title (ex_update_args due) = Some x \<longrightarrow> isValidTaskTitle (sanitizeInput x)"
  "\<not> descriptionRejected (ua_description (ex_update_args due))"
  "\<not> tagsRejected (ua_tags (ex_update_args due))"
  by (simp_all add: ex_update_args_def descriptionRejected_def tagsRejected_def)

lemma ex_get_task_1: "getTaskById ex_db 11 = Some (ex_task ''alice'' Todo 4)"
  by (simp add: getTaskById_def ex_db_def db_get_def)

theorem due_date_not_before_yesterday_witness:
  "authUser ex_ctx = Some ''alice'' \<and> ok (rateLimit ex_ctx ''createTask'' ''alice'') \<and>
   ok (rateLimit ex_ctx ''updateTask'' ''alice'') \<and>
   getTaskById ex_db 11 = Some (ex_task ''alice'' Todo 4) \<and>
   userId (ex_task ''alice'' Todo 4) = ''alice'' \<and>
   (3399827199999 / 2 :: rat) \<noteq> 0 \<and>
   (3399827199999 / 2 :: rat) < of_int (now ex_ctx) - 24 * 60 * 60 * 1000 \<and>
   tasks_create ex_ctx (ex_create_args (Some (3399827199999 / 2))) ex_full_db =
     (Inl (InvalidInput ''Invalid due date''), ex_full_db) \<and>
   tasks_update ex_ctx (ex_update_args (Some 1600000000000)) ex_db =
     (Inl (InvalidInput ''Invalid due date''), ex_db) \<and>
   of_int (now ex_ctx) - 24 * 60 * 60 * 1000 \<le> (1699913600000 :: rat) \<and>
   fst (tasks_create ex_ctx (ex_create_args (Some 1699913600000)) ex_full_db) = Inr 50 \<and>
   (\<exists>t. getTaskById (snd (tasks_create ex_ctx (ex_create_args (Some 1699913600000))
            ex_full_db)) 50 = Some t \<and> dueDate t = Some 1699913600000) \<and>
   fst (tasks_update ex_ctx (ex_update_args (Some 1699913600000)) ex_db) = Inr 11 \<and>
   (\<exists>t. getTaskById (snd (tasks_update ex_ctx (ex_update_args (Some 1699913600000)) ex_db))
            11 = Some t \<and> dueDate t = Some 1699913600000)"
proof -
  have u: "userId (ex_task ''alice'' Todo 4) = ''alice''" by (simp add: ex_task_def)
  have g: "getTaskById ex_db (ua_id (ex_update_args due)) = Some (ex_task ''alice'' Todo 4)"
    for due
    using ex_get_task_1 by (simp add: ex_update_args_def)
  have i: "ua_id (ex_update_args due) = 11" for due
    by (simp add: ex_update_args_def)
  have d: "ca_dueDate (ex_create_args (Some x)) = Some x"
    "ua_dueDate (ex_update_args (Some x)) = Some x" for x
    by (simp_all add: ex_create_args_def ex_update_args_def)
  have old: "(3399827199999 / 2 :: rat) \<noteq> 0"
    "(3399827199999 / 2 :: rat) < of_int (now ex_ctx) - 24 * 60 * 60 * 1000"
    "(1600000000000 :: rat) \<noteq> 0"
    "(1600000000000 :: rat) < of_int (now ex_ctx) - 24 * 60 * 60 * 1000"
    by (simp_all add: ex_ctx_simps)
  have new: "(1699913600000 :: rat) \<noteq> 0"
    "of_int (now ex_ctx) - 24 * 60 * 60 * 1000 \<le> (1699913600000 :: rat)"
    by (simp_all add: ex_ctx_simps)
  note rej = due_date_not_before_yesterday
    [where c = ex_ctx and u = "''alice''" and args = "ex_create_args (Some (3399827199999 / 2))"
       and d = "3399827199999 / 2" and s = ex_full_db and c' = ex_ctx and u' = "''alice''"
       and s' = ex_db and uargs = "ex_update_args (Some 1600000000000)"
       and ?t0.0 = "ex_task ''alice'' Todo 4" and d' = 1600000000000]
  note acc = due_date_not_before_yesterday
    [where c = ex_ctx and u = "''alice''" and args = "ex_create_args (Some 1699913600000)"
       and d = 1699913600000 and s = ex_full_db and c' = ex_ctx and u' = "''alice''"
       and s' = ex_db and uargs = "ex_update_args (Some 1699913600000)"
       and ?t0.0 = "ex_task ''alice'' Todo 4" and d' = 1699913600000]
  from rej old d g u ex_validations ex_update_validations ex_ctx_simps(1,3)
  have r1: "tasks_create ex_ctx (ex_create_args (Some (3399827199999 / 2))) ex_full_db =
       (Inl (InvalidInput ''Invalid due date''), ex_full_db)"
    and r2: "tasks_update ex_ctx (ex_update_args (Some 1600000000000)) ex_db =
       (Inl (InvalidInput ''Invalid due date''), ex_db)"
    by blast+
  from acc new d g u ex_validations ex_update_validations ex_ctx_simps(1,3)
  have a1: "fst (tasks_create ex_ctx (ex_create_args (Some 1699913600000)) ex_full_db) =
        Inr (nextId ex_full_db) \<and>
      (\<exists>t. getTaskById (snd (tasks_create ex_ctx (ex_create_args (Some 1699913600000))
            ex_full_db)) (nextId ex_full_db) = Some t \<and> dueDate t = Some 1699913600000)"
    and a2: "fst (tasks_update ex_ctx (ex_update_args (Some 1699913600000)) ex_db) =
        Inr (ua_id (ex_update_args (Some 1699913600000))) \<and>
      (\<exists>t. getTaskById (snd (tasks_update ex_ctx (ex_update_args (Some 1699913600000)) ex_db))
            (ua_id (ex_update_args (Some 1699913600000))) = Some t \<and>
           dueDate t = Some 1699913600000)"
    by blast+
  from a1 a2 r1 r2 old new u show ?thesis
    by (simp add: ex_full_db_no_tasks i ex_ctx_simps(1,3) ex_get_task_1)
qed

section \<open>The category limit\<close>

lemma length_getCategoriesByUser:
  "length (getCategoriesByUser s u) = length (filter (\<lambda>r. cat_userId (snd r) = u) (categoriesTable s))"
  by (simp add: getCategoriesByUser_def)

lemma categories_create_categories:
  "categoriesTable (snd (categories_create c args s)) = categoriesTable s \<or>
   (\<exists>d. authUser c = Some (cat_userId d) \<and>
        length (getCategoriesByUser s (cat_userId d)) < MAX_CATEGORIES_PER_USER \<and>
        categoriesTable (snd (categories_create c args s)) = (nextId s, d) # categoriesTable s)"
  by (auto simp: categories_create_def createCategory_def db_insert_categories_def
      split: option.splits)

text \<open>
  C10. For an authenticated caller within the rate limit who already has 50 or more
  categories, the create-category handler throws the limit error whatever the
  arguments are (no validation has run) and writes nothing. And a user with at most 50
  categories still has at most 50 after any create-category request.
\<close>

theorem category_limit:
  assumes "authUser c = Some u" and "ok (rateLimit c ''createCategory'' u)"
  shows "(50 \<le> length (getCategoriesByUser s u) \<longrightarrow>
            categories_create c args s =
              (Inl (LimitReached ''Maximum 50 categories allowed per user''), s)) \<and>
         (length (getCategoriesByUser s v) \<le> 50 \<longrightarrow>
            length (getCategoriesByUser (snd (categories_create c args s)) v) \<le> 50)"
proof (intro conjI impI)
  assume "50 \<le> length (getCategoriesByUser s u)"
  with assms show "categories_create c args s =
      (Inl (LimitReached ''Maximum 50 categories allowed per user''), s)"
    by (simp add: categories_create_def MAX_CATEGORIES_PER_USER_def)
next
  assume le: "length (getCategoriesByUser s v) \<le> 50"
  from categories_create_categories [of c args s]
  show "length (getCategoriesByUser (snd (categories_create c args s)) v) \<le> 50"
  proof
    assume "categoriesTable (snd (categories_create c args s)) = categoriesTable s"
    with le show ?thesis by (simp add: length_getCategoriesByUser)
  next
    assume "\<exists>d. authUser c = Some (cat_userId d) \<and>
        length (getCategoriesByUser s (cat_userId d)) < MAX_CATEGORIES_PER_USER \<and>
        categoriesTable (snd (categories_create c args s)) = (nextId s, d) # categoriesTable s"
    then obtain d where d: "length (getCategoriesByUser s (cat_userId d)) < 50"
      "categoriesTable (snd (categories_create c args s)) = (nextId s, d) # categoriesTable s"
      by (auto simp: MAX_CATEGORIES_PER_USER_def)
    with le show ?thesis by (auto simp: length_getCategoriesByUser)
  qed
qed

lemma ex_full_count: "length (getCategoriesByUser ex_full_db ''alice'') = 50"
  by (simp add: length_getCategoriesByUser ex_full_db_def ex_category_def filter_map o_def)

lemma ex_count: "length (getCategoriesByUser ex_db ''alice'') = 1"
  by (simp add: length_getCategoriesByUser ex_db_def)

theorem category_limit_witness:
  "authUser ex_ctx = Some ''alice'' \<and> ok (rateLimit ex_ctx ''createCategory'' ''alice'') \<and>
   50 \<le> length (getCategoriesByUser ex_full_db ''alice'') \<and>
   categories_create ex_ctx ex_category_args ex_full_db =
     (Inl (LimitReached ''Maximum 50 categories allowed per user''), ex_full_db) \<and>
   length (getCategoriesByUser ex_db ''alice'') \<le> 50 \<and>
   fst (categories_create ex_ctx ex_category_args ex_db) = Inr 20 \<and>
   length (getCategoriesByUser (snd (categories_create ex_ctx ex_category_args ex_db)) ''alice'') \<le> 50"
proof -
  have ok1: "fst (categories_create ex_ctx ex_category_args ex_db) = Inr 20"
    by (simp add: categories_create_def ex_ctx_simps ex_count MAX_CATEGORIES_PER_USER_def
        createCategory_def db_insert_categories_def ex_category_args_def isValidCategoryName_def
        sanitizeInput_def trim_def isSpace_def isValidHexColor_def isHexDigit_def
        isValidIconName_def isIconChar_def)
       (simp add: ex_db_def)
  show ?thesis
    using category_limit [OF ex_ctx_simps(1) ex_ctx_simps(3), of ex_full_db ex_category_args "''alice''"]
      category_limit [OF ex_ctx_simps(1) ex_ctx_simps(3), of ex_db ex_category_args "''alice''"]
      ok1
    by (simp add: ex_ctx_simps ex_full_count ex_count)
qed

section \<open>Deleting a task\<close>

lemma fold_db_delete_taskComments:
  "fold db_delete_taskComments ids s =
     s\<lparr>taskCommentsTable := filter (\<lambda>r. fst r \<notin> set ids) (taskCommentsTable s),
       journal := journal s @ map (Delete TaskComments) ids\<rparr>"
proof (induction ids arbitrary: s)
  case Nil
  then show ?case by simp
next
  case (Cons i ids)
  have "filter (\<lambda>r. fst r \<notin> set ids) (db_delete i tbl) =
        filter (\<lambda>r. fst r \<notin> set (i # ids)) tbl" for tbl :: "taskComment table"
    by (auto simp: db_delete_def intro: filter_cong)
  with Cons show ?case by (simp add: db_delete_taskComments_def)
qed

lemma fold_db_delete_taskActivity:
  "fold db_delete_taskActivity ids s =
     s\<lparr>taskActivityTable := filter (\<lambda>r. fst r \<notin> set ids) (taskActivityTable s),
       journal := journal s @ map (Delete TaskActivity) ids\<rparr>"
proof (induction ids arbitrary: s)
  case Nil
  then show ?case by simp
next
  case (Cons i ids)
  have "filter (\<lambda>r. fst r \<notin> set ids) (db_delete i tbl) =
        filter (\<lambda>r. fst r \<notin> set (i # ids)) tbl" for tbl :: "taskActivity table"
    by (auto simp: db_delete_def intro: filter_cong)
  with Cons show ?case by (simp add: db_delete_taskActivity_def)
qed

lemma none_left:
  "\<forall>r \<in> set (filter (\<lambda>r. fst r \<notin> set (map fst (rev (filter P tbl)))) tbl). \<not> P r"
  by force


lemma tasks_remove_success:
  assumes "authUser c = Some u" and "ok (rateLimit c ''deleteTask'' u)"
    and "getTaskById s i = Some t" and "userId t = u"
  shows "tasks_remove c i s =
          (Inr i, deleteTask i (deleteActivityByTask i (deleteCommentsByTask i
                    (snd (logTaskDeleted c i u (title t) s)))))"
  using assms by (simp add: tasks_remove_def case_prod_unfold)

lemma logTaskDeleted_eq:
  "snd (logTaskDeleted c i u m s) =
     s\<lparr>taskActivityTable :=
         (nextId s, \<lparr>act_taskId = i, act_userId = u, act_action = Deleted,
            act_changes = None, act_metadata = Some m, act_createdAt = now c\<rparr>) #
         taskActivityTable s,
       nextId := Suc (nextId s),
       journal := journal s @ [Insert TaskActivity (nextId s)]\<rparr>"
  by (simp add: logTaskDeleted_def createTaskActivity_def db_insert_taskActivity_def)

lemma deleteCommentsByTask_eq:
  "deleteCommentsByTask i s =
     s\<lparr>taskCommentsTable :=
         filter (\<lambda>r. fst r \<notin> set (map fst (rev (filter (\<lambda>r. com_taskId (snd r) = i)
            (taskCommentsTable s))))) (taskCommentsTable s),
       journal := journal s @
         map (Delete TaskComments)
           (map fst (rev (filter (\<lambda>r. com_taskId (snd r) = i) (taskCommentsTable s))))\<rparr>"
  unfolding deleteCommentsByTask_def Let_def by (rule fold_db_delete_taskComments)

lemma deleteActivityByTask_eq:
  "deleteActivityByTask i s =
     s\<lparr>taskActivityTable :=
         filter (\<lambda>r. fst r \<notin> set (map fst (rev (filter (\<lambda>r. act_taskId (snd r) = i)
            (taskActivityTable s))))) (taskActivityTable s),
       journal := journal s @
         map (Delete TaskActivity)
           (map fst (rev (filter (\<lambda>r. act_taskId (snd r) = i) (taskActivityTable s))))\<rparr>"
  unfolding deleteActivityByTask_def Let_def by (rule fold_db_delete_taskActivity)

lemma deleteTask_proj:
  "taskCommentsTable (deleteTask i s) = taskCommentsTable s"
  "taskActivityTable (deleteTask i s) = taskActivityTable s"
  "journal (deleteTask i s) = journal s @ [Delete Tasks i]"
  "getTaskById (deleteTask i s) i = None"
  by (simp_all add: deleteTask_def db_delete_tasks_def getTaskById_def db_get_delete)

lemma deleteActivityByTask_proj:
  "taskCommentsTable (deleteActivityByTask i s) = taskCommentsTable s"
  "\<forall>r \<in> set (taskActivityTable (deleteActivityByTask i s)). act_taskId (snd r) \<noteq> i"
  "journal (deleteActivityByTask i s) =
     journal s @ map (Delete TaskActivity)
       (map fst (rev (filter (\<lambda>r. act_taskId (snd r) = i) (taskActivityTable s))))"
proof -
  show "taskCommentsTable (deleteActivityByTask i s) = taskCommentsTable s"
    by (simp add: deleteActivityByTask_eq)
  show "journal (deleteActivityByTask i s) =
     journal s @ map (Delete TaskActivity)
       (map fst (rev (filter (\<lambda>r. act_taskId (snd r) = i) (taskActivityTable s))))"
    by (simp add: deleteActivityByTask_eq)
  have "taskActivityTable (deleteActivityByTask i s) =
          filter (\<lambda>r. fst r \<notin> set (map fst (rev (filter (\<lambda>r. act_taskId (snd r) = i)
            (taskActivityTable s))))) (taskActivityTable s)"
    by (simp add: deleteActivityByTask_eq)
  then show "\<forall>r \<in> set (taskActivityTable (deleteActivityByTask i s)). act_taskId (snd r) \<noteq> i"
    by (simp only:) (rule none_left)
qed

lemma deleteCommentsByTask_proj:
  "taskActivityTable (deleteCommentsByTask i s) = taskActivityTable s"
  "\<forall>r \<in> set (taskCommentsTable (deleteCommentsByTask i s)). com_taskId (snd r) \<noteq> i"
  "journal (deleteCommentsByTask i s) =
     journal s @ map (Delete TaskComments)
       (map fst (rev (filter (\<lambda>r. com_taskId (snd r) = i) (taskCommentsTable s))))"
proof -
  show "taskActivityTable (deleteCommentsByTask i s) = taskActivityTable s"
    by (simp add: deleteCommentsByTask_eq)
  show "journal (deleteCommentsByTask i s) =
     journal s @ map (Delete TaskComments)
       (map fst (rev (filter (\<lambda>r. com_taskId (snd r) = i) (taskCommentsTable s))))"
    by (simp add: deleteCommentsByTask_eq)
  have "taskCommentsTable (deleteCommentsByTask i s) =
          filter (\<lambda>r. fst r \<notin> set (map fst (rev (filter (\<lambda>r. com_taskId (snd r) = i)
            (taskCommentsTable s))))) (taskCommentsTable s)"
    by (simp add: deleteCommentsByTask_eq)
  then show "\<forall>r \<in> set (taskCommentsTable (deleteCommentsByTask i s)). com_taskId (snd r) \<noteq> i"
    by (simp only:) (rule none_left)
qed

lemma logTaskDeleted_proj:
  "taskCommentsTable (snd (logTaskDeleted c i u m s)) = taskCommentsTable s"
  "journal (snd (logTaskDeleted c i u m s)) = journal s @ [Insert TaskActivity (nextId s)]"
  "map fst (rev (filter (\<lambda>r. act_taskId (snd r) = i)
      (taskActivityTable (snd (logTaskDeleted c i u m s))))) =
   map fst (rev (filter (\<lambda>r. act_taskId (snd r) = i) (taskActivityTable s))) @ [nextId s]"
  by (simp_all add: logTaskDeleted_eq)

text \<open>
  C2. For a task \<open>i\<close> owned by the caller (authenticated, within the rate limit), the
  delete handler succeeds; afterwards no comment and no activity record refers to \<open>i\<close>
  (the "deleted" record the handler logged first is gone too), the task itself is gone
  and reading it by id fails with "Task not found". The writes happen in this order: the
  activity insert, the deletes of the task's comments, the deletes of its activity
  records, the delete of the task.
\<close>

theorem remove_cascades:
  assumes "authUser c = Some u" and "ok (rateLimit c ''deleteTask'' u)"
    and "getTaskById s i = Some t" and "userId t = u"
    and "s' = snd (tasks_remove c i s)"
  shows "fst (tasks_remove c i s) = Inr i \<and>
         (\<forall>r \<in> set (taskCommentsTable s'). com_taskId (snd r) \<noteq> i) \<and>
         (\<forall>r \<in> set (taskActivityTable s'). act_taskId (snd r) \<noteq> i) \<and>
         getTaskById s' i = None \<and>
         tasks_get c i s' = Inl (NotFound ''Task not found'') \<and>
         journal s' =
           journal s @ [Insert TaskActivity (nextId s)] @
           map (Delete TaskComments)
             (map fst (rev (filter (\<lambda>r. com_taskId (snd r) = i) (taskCommentsTable s)))) @
           map (Delete TaskActivity)
             (map fst (rev (filter (\<lambda>r. act_taskId (snd r) = i) (taskActivityTable s))) @
              [nextId s]) @
           [Delete Tasks i]"
proof -
  define s1 where "s1 = snd (logTaskDeleted c i u (title t) s)"
  define s2 where "s2 = deleteCommentsByTask i s1"
  define s3 where "s3 = deleteActivityByTask i s2"
  have run: "tasks_remove c i s = (Inr i, deleteTask i s3)"
    using assms(1-4) by (simp only: tasks_remove_success s1_def s2_def s3_def)
  then have s': "s' = deleteTask i s3" and res: "fst (tasks_remove c i s) = Inr i"
    using assms(5) by simp_all
  have com: "\<forall>r \<in> set (taskCommentsTable s'). com_taskId (snd r) \<noteq> i"
    by (simp only: s' s3_def s2_def deleteTask_proj(1) deleteActivityByTask_proj(1))
       (rule deleteCommentsByTask_proj(2))
  have act: "\<forall>r \<in> set (taskActivityTable s'). act_taskId (snd r) \<noteq> i"
    by (simp only: s' s3_def deleteTask_proj(2)) (rule deleteActivityByTask_proj(2))
  have get: "getTaskById s' i = None"
    by (simp only: s' deleteTask_proj(4))
  have j1: "journal s1 = journal s @ [Insert TaskActivity (nextId s)]"
    by (simp only: s1_def logTaskDeleted_proj(2))
  have j2: "journal s2 = journal s1 @ map (Delete TaskComments)
      (map fst (rev (filter (\<lambda>r. com_taskId (snd r) = i) (taskCommentsTable s))))"
    by (simp only: s2_def deleteCommentsByTask_proj(3)) (simp only: s1_def logTaskDeleted_proj(1))
  have j3: "journal s3 = journal s2 @ map (Delete TaskActivity)
      (map fst (rev (filter (\<lambda>r. act_taskId (snd r) = i) (taskActivityTable s))) @ [nextId s])"
    by (simp only: s3_def deleteActivityByTask_proj(3))
       (simp only: s2_def deleteCommentsByTask_proj(1) s1_def logTaskDeleted_proj(3))
  have jou: "journal s' =
           journal s @ [Insert TaskActivity (nextId s)] @
           map (Delete TaskComments)
             (map fst (rev (filter (\<lambda>r. com_taskId (snd r) = i) (taskCommentsTable s)))) @
           map (Delete TaskActivity)
             (map fst (rev (filter (\<lambda>r. act_taskId (snd r) = i) (taskActivityTable s))) @
              [nextId s]) @
           [Delete Tasks i]"
    by (simp only: s' deleteTask_proj(3) j3 j2 j1 append_assoc)
  from assms(1) get have "tasks_get c i s' = Inl (NotFound ''Task not found'')"
    by (simp add: tasks_get_def)
  with res com act get jou show ?thesis by blast
qed

lemma ex_remove_state:
  "snd (tasks_remove ex_ctx 11 ex_db) =
     ex_db\<lparr>tasksTable := [(12, (ex_task ''bob'' Todo 9)\<lparr>categoryId := None\<rparr>),
                          (10, ex_task ''alice'' Todo 2)],
           taskCommentsTable := [(13, \<lparr>com_taskId = 10, com_userId = ''alice'',
              com_content = ''Draft done'', com_createdAt = 1690000000400,
              com_updatedAt = 1690000000400\<rparr>)],
           taskActivityTable := [(15, \<lparr>act_taskId = 10, act_userId = ''alice'',
              act_action = Created, act_changes = None, act_metadata = None,
              act_createdAt = 1690000000000\<rparr>)],
           nextId := 21,
           journal := [Insert TaskActivity 20, Delete TaskComments 14, Delete TaskActivity 16,
                       Delete TaskActivity 20, Delete Tasks 11]\<rparr>"
proof -
  have u: "userId (ex_task ''alice'' Todo 4) = ''alice''" by (simp add: ex_task_def)
  have "snd (tasks_remove ex_ctx 11 ex_db) =
        deleteTask 11 (deleteActivityByTask 11 (deleteCommentsByTask 11
          (snd (logTaskDeleted ex_ctx 11 ''alice'' (title (ex_task ''alice'' Todo 4)) ex_db))))"
    by (simp add: tasks_remove_success [OF ex_ctx_simps(1) ex_ctx_simps(3) ex_get_task_1 u])
  also have "\<dots> = ex_db\<lparr>tasksTable := [(12, (ex_task ''bob'' Todo 9)\<lparr>categoryId := None\<rparr>),
                          (10, ex_task ''alice'' Todo 2)],
           taskCommentsTable := [(13, \<lparr>com_taskId = 10, com_userId = ''alice'',
              com_content = ''Draft done'', com_createdAt = 1690000000400,
              com_updatedAt = 1690000000400\<rparr>)],
           taskActivityTable := [(15, \<lparr>act_taskId = 10, act_userId = ''alice'',
              act_action = Created, act_changes = None, act_metadata = None,
              act_createdAt = 1690000000000\<rparr>)],
           nextId := 21,
           journal := [Insert TaskActivity 20, Delete TaskComments 14, Delete TaskActivity 16,
                       Delete TaskActivity 20, Delete Tasks 11]\<rparr>"
    by (simp add: logTaskDeleted_eq deleteCommentsByTask_eq deleteActivityByTask_eq
        deleteTask_def db_delete_tasks_def db_delete_def ex_db_def)
  finally show ?thesis .
qed

theorem remove_cascades_witness:
  "authUser ex_ctx = Some ''alice'' \<and> ok (rateLimit ex_ctx ''deleteTask'' ''alice'') \<and>
   getTaskById ex_db 11 = Some (ex_task ''alice'' Todo 4) \<and>
   userId (ex_task ''alice'' Todo 4) = ''alice'' \<and>
   fst (tasks_remove ex_ctx 11 ex_db) = Inr 11 \<and>
   map fst (taskCommentsTable (snd (tasks_remove ex_ctx 11 ex_db))) = [13] \<and>
   map fst (taskActivityTable (snd (tasks_remove ex_ctx 11 ex_db))) = [15] \<and>
   getTaskById (snd (tasks_remove ex_ctx 11 ex_db)) 11 = None \<and>
   tasks_get ex_ctx 11 (snd (tasks_remove ex_ctx 11 ex_db)) = Inl (NotFound ''Task not found'') \<and>
   journal (snd (tasks_remove ex_ctx 11 ex_db)) =
     [Insert TaskActivity 20, Delete TaskComments 14, Delete TaskActivity 16,
      Delete TaskActivity 20, Delete Tasks 11]"
proof -
  have u: "userId (ex_task ''alice'' Todo 4) = ''alice''" by (simp add: ex_task_def)
  have t: "map fst (taskCommentsTable (snd (tasks_remove ex_ctx 11 ex_db))) = [13]"
    "map fst (taskActivityTable (snd (tasks_remove ex_ctx 11 ex_db))) = [15]"
    "journal (snd (tasks_remove ex_ctx 11 ex_db)) =
     [Insert TaskActivity 20, Delete TaskComments 14, Delete TaskActivity 16,
      Delete TaskActivity 20, Delete Tasks 11]"
    by (simp_all add: ex_remove_state)
  from remove_cascades [OF ex_ctx_simps(1) ex_ctx_simps(3) ex_get_task_1 u refl]
  have "fst (tasks_remove ex_ctx 11 ex_db) = Inr 11"
    and "getTaskById (snd (tasks_remove ex_ctx 11 ex_db)) 11 = None"
    and "tasks_get ex_ctx 11 (snd (tasks_remove ex_ctx 11 ex_db)) =
         Inl (NotFound ''Task not found'')"
    by blast+
  with t u ex_get_task_1 show ?thesis by (simp add: ex_ctx_simps)
qed

section \<open>Reordering tasks\<close>

lemma verifyOwnership_None_iff:
  "verifyOwnership s u updates = None \<longleftrightarrow>
   (\<forall>p \<in> set updates. \<exists>t. getTaskById s (fst p) = Some t \<and> userId t = u)"
  by (induction updates) (auto split: option.splits)

lemma verifyOwnership_Some:
  "verifyOwnership s u updates = Some e \<Longrightarrow> \<exists>m. e = NotFound m \<or> e = NotAuthorized m"
  by (induction updates) (auto split: option.splits if_splits)

lemma getTaskById_updateTaskOrders:
  "getTaskById (updateTaskOrders c updates s) i =
     (case map_of (rev updates) i of
        None \<Rightarrow> getTaskById s i
      | Some ord \<Rightarrow> map_option (\<lambda>t. t\<lparr>order := ord, updatedAt := now c\<rparr>) (getTaskById s i))"
proof (induction updates rule: rev_induct)
  case Nil
  then show ?case by (simp add: updateTaskOrders_def)
next
  case (snoc p ps)
  have step: "updateTaskOrders c (ps @ [p]) s =
      db_patch_tasks (fst p) (\<lambda>t. t\<lparr>order := snd p, updatedAt := now c\<rparr>)
        (updateTaskOrders c ps s)"
    by (simp add: updateTaskOrders_def)
  show ?case
  proof (cases "i = fst p")
    case True
    with snoc.IH show ?thesis
      by (simp add: step getTaskById_db_patch_tasks option.map_comp o_def
          split: option.splits)
  next
    case False
    then show ?thesis
      by (simp add: step getTaskById_db_patch_tasks snoc.IH)
  qed
qed

text \<open>
  C3 (as amended). For an authenticated caller: if some update of a reorder request names
  a task that does not exist or belongs to another user, the handler fails with a
  not-found or not-authorized error and the database is unchanged; if every named task
  belongs to the caller, the handler succeeds and every named task's order is the value
  of the last update of the request that names it, which is its requested value when no
  task id occurs twice in the request.
\<close>

theorem reorder_all_or_nothing:
  assumes "authUser c = Some u" and "s' = snd (tasks_reorder c updates s)"
  shows "((\<exists>p \<in> set updates. \<forall>t. getTaskById s (fst p) = Some t \<longrightarrow> userId t \<noteq> u) \<longrightarrow>
            s' = s \<and>
            (\<exists>m. fst (tasks_reorder c updates s) = Inl (NotFound m) \<or>
                 fst (tasks_reorder c updates s) = Inl (NotAuthorized m))) \<and>
         ((\<forall>p \<in> set updates. \<exists>t. getTaskById s (fst p) = Some t \<and> userId t = u) \<longrightarrow>
            fst (tasks_reorder c updates s) = Inr True \<and>
            (\<forall>p \<in> set updates. \<exists>t. getTaskById s' (fst p) = Some t \<and>
                 map_of (rev updates) (fst p) = Some (order t)) \<and>
            (distinct (map fst updates) \<longrightarrow>
               (\<forall>p \<in> set updates. \<exists>t. getTaskById s' (fst p) = Some t \<and> order t = snd p)))"
proof (intro conjI impI)
  assume bad: "\<exists>p \<in> set updates. \<forall>t. getTaskById s (fst p) = Some t \<longrightarrow> userId t \<noteq> u"
  then have "verifyOwnership s u updates \<noteq> None"
    by (auto simp: verifyOwnership_None_iff)
  then obtain e where e: "verifyOwnership s u updates = Some e" by blast
  with assms show "s' = s" by (simp add: tasks_reorder_def)
  from verifyOwnership_Some [OF e] e assms
  show "\<exists>m. fst (tasks_reorder c updates s) = Inl (NotFound m) \<or>
            fst (tasks_reorder c updates s) = Inl (NotAuthorized m)"
    by (auto simp: tasks_reorder_def)
next
  assume good: "\<forall>p \<in> set updates. \<exists>t. getTaskById s (fst p) = Some t \<and> userId t = u"
  then have v: "verifyOwnership s u updates = None"
    by (simp add: verifyOwnership_None_iff)
  with assms show "fst (tasks_reorder c updates s) = Inr True"
    by (simp add: tasks_reorder_def)
  from v assms have s': "s' = updateTaskOrders c updates s"
    by (simp add: tasks_reorder_def)
  show last: "\<forall>p \<in> set updates. \<exists>t. getTaskById s' (fst p) = Some t \<and>
                 map_of (rev updates) (fst p) = Some (order t)"
  proof
    fix p assume p: "p \<in> set updates"
    with good obtain t where t: "getTaskById s (fst p) = Some t" by blast
    from p have "fst p \<in> fst ` set (rev updates)" by simp
    then obtain ord where ord: "map_of (rev updates) (fst p) = Some ord"
      by (metis map_of_eq_None_iff not_Some_eq)
    show "\<exists>t. getTaskById s' (fst p) = Some t \<and> map_of (rev updates) (fst p) = Some (order t)"
      by (simp add: s' getTaskById_updateTaskOrders ord t)
  qed
  show "\<forall>p \<in> set updates. \<exists>t. getTaskById s' (fst p) = Some t \<and> order t = snd p"
    if d: "distinct (map fst updates)"
  proof
    fix p assume p: "p \<in> set updates"
    from d have "distinct (map fst (rev updates))" by (simp add: rev_map [symmetric])
    with p have "map_of (rev updates) (fst p) = Some (snd p)"
      by (intro map_of_is_SomeI) simp_all
    with last p show "\<exists>t. getTaskById s' (fst p) = Some t \<and> order t = snd p" by fastforce
  qed
qed


lemma ex_get_tasks:
  "getTaskById ex_db 10 = Some (ex_task ''alice'' Todo 2)"
  "getTaskById ex_db 12 = Some ((ex_task ''bob'' Todo 9)\<lparr>categoryId := None\<rparr>)"
  by (simp_all add: getTaskById_def ex_db_def db_get_def)

lemma ex_task_simps:
  "userId (ex_task u st ord) = u" "order (ex_task u st ord) = ord"
  "status (ex_task u st ord) = st" "completedAt (ex_task u st ord) = None"
  by (simp_all add: ex_task_def)

text \<open>
  A request may name a task twice. The updates are applied in sequence, so the first of
  two requested values does not survive: "every listed task's order is set to its
  requested value" fails for the update \<open>(11, 5)\<close> below.
\<close>

theorem reorder_repeated_id_counterexample:
  "getTaskById ex_db 11 = Some (ex_task ''alice'' Todo 4) \<and>
   userId (ex_task ''alice'' Todo 4) = ''alice'' \<and>
   fst (tasks_reorder ex_ctx [(11, 5), (11, 7)] ex_db) = Inr True \<and>
   map_option order (getTaskById (snd (tasks_reorder ex_ctx [(11, 5), (11, 7)] ex_db)) 11) =
     Some 7 \<and>
   map_option order (getTaskById (snd (tasks_reorder ex_ctx [(11, 5), (11, 7)] ex_db)) 11) \<noteq>
     Some 5"
  by (simp add: tasks_reorder_def ex_ctx_simps ex_get_task_1 ex_task_simps
      getTaskById_updateTaskOrders)

theorem reorder_all_or_nothing_witness:
  "authUser ex_ctx = Some ''alice'' \<and>
   tasks_reorder ex_ctx [(11, 5), (12, 6)] ex_db =
     (Inl (NotAuthorized ''Not authorized to reorder task 12''), ex_db) \<and>
   fst (tasks_reorder ex_ctx [(11, 5), (10, 6)] ex_db) = Inr True \<and>
   map_option order (getTaskById (snd (tasks_reorder ex_ctx [(11, 5), (10, 6)] ex_db)) 11) =
     Some 5 \<and>
   map_option order (getTaskById (snd (tasks_reorder ex_ctx [(11, 5), (10, 6)] ex_db)) 10) =
     Some 6"
proof -
  have bad: "\<exists>p \<in> set [(11, 5), (12, 6)].
      \<forall>t. getTaskById ex_db (fst p) = Some t \<longrightarrow> userId t \<noteq> ''alice''"
    by (simp add: ex_get_tasks ex_task_simps)
  have good: "\<forall>p \<in> set [(11, 5), (10, 6)].
      \<exists>t. getTaskById ex_db (fst p) = Some t \<and> userId t = ''alice''"
    by (simp add: ex_get_tasks ex_get_task_1 ex_task_simps)
  have d: "distinct (map fst [(11 :: nat, 5 :: rat), (10, 6)])" by simp
  have idt: "id_text 12 = ''12''"
    by (simp add: id_text.simps)
  have e: "fst (tasks_reorder ex_ctx [(11, 5), (12, 6)] ex_db) =
      Inl (NotAuthorized ''Not authorized to reorder task 12'')"
    by (simp add: tasks_reorder_def ex_ctx_simps ex_get_tasks ex_get_task_1 ex_task_simps idt)
  from reorder_all_or_nothing [OF ex_ctx_simps(1) refl, of "[(11, 5), (12, 6)]" ex_db] bad
  have "snd (tasks_reorder ex_ctx [(11, 5), (12, 6)] ex_db) = ex_db" by blast
  with e have r1: "tasks_reorder ex_ctx [(11, 5), (12, 6)] ex_db =
     (Inl (NotAuthorized ''Not authorized to reorder task 12''), ex_db)"
    by (simp add: prod_eq_iff)
  from reorder_all_or_nothing [OF ex_ctx_simps(1) refl, of "[(11, 5), (10, 6)]" ex_db] good d
  have r2: "fst (tasks_reorder ex_ctx [(11, 5), (10, 6)] ex_db) = Inr True"
    and r3: "\<forall>p \<in> set [(11, 5), (10, 6)].
      \<exists>t. getTaskById (snd (tasks_reorder ex_ctx [(11, 5), (10, 6)] ex_db)) (fst p) = Some t \<and>
          order t = snd p"
    by blast+
  from r3 have "map_option order
      (getTaskById (snd (tasks_reorder ex_ctx [(11, 5), (10, 6)] ex_db)) 11) = Some 5"
    and "map_option order
      (getTaskById (snd (tasks_reorder ex_ctx [(11, 5), (10, 6)] ex_db)) 10) = Some 6"
    by auto
  with r1 r2 show ?thesis by (simp add: ex_ctx_simps)
qed

section \<open>Deleting a category\<close>

lemma fold_db_patch_tasks:
  assumes idem: "\<And>t. f (f t) = f t"
  shows "fold (\<lambda>r. db_patch_tasks (fst r) f) rs s =
     s\<lparr>tasksTable :=
         map (\<lambda>r. if fst r \<in> fst ` set rs then (fst r, f (snd r)) else r) (tasksTable s),
       journal := journal s @ map (\<lambda>r. Patch Tasks (fst r)) rs\<rparr>"
proof (induction rs arbitrary: s)
  case Nil
  then show ?case by simp
next
  case (Cons r rs)
  have "map (\<lambda>x. if fst x \<in> fst ` set rs then (fst x, f (snd x)) else x)
          (db_patch (fst r) f tbl) =
        map (\<lambda>x. if fst x \<in> fst ` set (r # rs) then (fst x, f (snd x)) else x) tbl"
    for tbl :: "task table"
    by (auto simp: db_patch_def idem)
  with Cons show ?case by (simp add: db_patch_tasks_def)
qed

lemma fold_db_delete_tasks:
  "fold db_delete_tasks ids s =
     s\<lparr>tasksTable := filter (\<lambda>r. fst r \<notin> set ids) (tasksTable s),
       journal := journal s @ map (Delete Tasks) ids\<rparr>"
proof (induction ids arbitrary: s)
  case Nil
  then show ?case by simp
next
  case (Cons i ids)
  have "filter (\<lambda>r. fst r \<notin> set ids) (db_delete i tbl) =
        filter (\<lambda>r. fst r \<notin> set (i # ids)) tbl" for tbl :: "task table"
    by (auto simp: db_delete_def intro: filter_cong)
  with Cons show ?case by (simp add: db_delete_tasks_def)
qed

lemma key_in_filtered:
  assumes "distinct (map fst tbl)" and "r \<in> set tbl"
  shows "fst r \<in> fst ` set (filter P tbl) \<longleftrightarrow> P r"
proof
  assume "fst r \<in> fst ` set (filter P tbl)"
  then obtain r' where r': "r' \<in> set tbl" "P r'" "fst r' = fst r" by auto
  with assms have "r' = r"
    by (metis eq_key_imp_eq_value prod.collapse)
  with r' show "P r" by simp
next
  assume "P r"
  with assms show "fst r \<in> fst ` set (filter P tbl)" by auto
qed

lemma apply_update_unlinkArgs:
  "apply_update unlinkArgs t_now t = t\<lparr>categoryId := None, updatedAt := t_now\<rparr>"
  by (simp add: apply_update_def unlinkArgs_def apply_field_def apply_required_def)


lemma categories_remove_success:
  assumes "authUser c = Some u" and "ok (rateLimit c ''deleteCategory'' u)"
    and "getCategoryById s i = Some cat" and "cat_userId cat = u"
  shows "categories_remove c i mode s =
     (Inr i,
      deleteCategory i
        (if mode = DeleteTasks then deleteTasks (map fst (getTasksByCategory s i)) s
         else fold (\<lambda>r. updateTask c (fst r) unlinkArgs) (getTasksByCategory s i) s))"
  using assms by (simp add: categories_remove_def Let_def)

lemma unlink_loop:
  assumes "distinct (map fst (tasksTable s))"
  shows "tasksTable (fold (\<lambda>r. updateTask c (fst r) unlinkArgs) (getTasksByCategory s i) s) =
     map (\<lambda>r. if categoryId (snd r) = Some i
               then (fst r, (snd r)\<lparr>categoryId := None, updatedAt := now c\<rparr>) else r)
       (tasksTable s)"
proof -
  have "apply_update unlinkArgs (now c) = (\<lambda>t. t\<lparr>categoryId := None, updatedAt := now c\<rparr>)"
    by (rule ext) (simp add: apply_update_unlinkArgs)
  then have eq: "(\<lambda>r. updateTask c (fst r) unlinkArgs) =
        (\<lambda>r. db_patch_tasks (fst r) (\<lambda>t. t\<lparr>categoryId := None, updatedAt := now c\<rparr>))"
    by (intro ext) (simp add: updateTask_def)
  have "tasksTable (fold (\<lambda>r. updateTask c (fst r) unlinkArgs) (getTasksByCategory s i) s) =
     map (\<lambda>r. if fst r \<in> fst ` set (getTasksByCategory s i)
               then (fst r, (snd r)\<lparr>categoryId := None, updatedAt := now c\<rparr>) else r)
       (tasksTable s)"
    unfolding eq by (simp add: fold_db_patch_tasks)
  also have "\<dots> = map (\<lambda>r. if categoryId (snd r) = Some i
               then (fst r, (snd r)\<lparr>categoryId := None, updatedAt := now c\<rparr>) else r)
       (tasksTable s)"
    using key_in_filtered [OF assms, of _ "\<lambda>r. categoryId (snd r) = Some i"]
    by (intro map_cong refl) (simp add: getTasksByCategory_def)
  finally show ?thesis .
qed

lemma deleteTasks_loop:
  assumes "distinct (map fst (tasksTable s))"
  shows "tasksTable (deleteTasks (map fst (getTasksByCategory s i)) s) =
     filter (\<lambda>r. categoryId (snd r) \<noteq> Some i) (tasksTable s)"
proof -
  have "tasksTable (deleteTasks (map fst (getTasksByCategory s i)) s) =
     filter (\<lambda>r. fst r \<notin> fst ` set (getTasksByCategory s i)) (tasksTable s)"
    by (simp add: deleteTasks_def fold_db_delete_tasks)
  also have "\<dots> = filter (\<lambda>r. categoryId (snd r) \<noteq> Some i) (tasksTable s)"
    using key_in_filtered [OF assms, of _ "\<lambda>r. categoryId (snd r) = Some i"]
    by (intro filter_cong refl) (simp add: getTasksByCategory_def)
  finally show ?thesis .
qed

lemma deleteCategory_proj:
  "tasksTable (deleteCategory i s) = tasksTable s"
  "getCategoryById (deleteCategory i s) i = None"
  by (simp_all add: deleteCategory_def db_delete_categories_def getCategoryById_def db_get_delete)

text \<open>
  C7 (as amended). For a category owned by the caller (authenticated, within the rate
  limit) in a database whose task ids are unique, the delete handler succeeds and removes
  the category. In "unlink" mode every task that referenced the category stays in the
  table with its category reference cleared and its update timestamp set to the current
  time, all its other fields and all other tasks being unchanged; in "deleteTasks" mode
  exactly the tasks that referenced the category are removed.
\<close>

theorem category_remove_modes:
  assumes "authUser c = Some u" and "ok (rateLimit c ''deleteCategory'' u)"
    and "getCategoryById s i = Some cat" and "cat_userId cat = u"
    and "distinct (map fst (tasksTable s))"
    and "s' = snd (categories_remove c i mode s)"
  shows "fst (categories_remove c i mode s) = Inr i \<and> getCategoryById s' i = None \<and>
         (mode = Unlink \<longrightarrow>
            tasksTable s' =
              map (\<lambda>r. if categoryId (snd r) = Some i
                        then (fst r, (snd r)\<lparr>categoryId := None, updatedAt := now c\<rparr>)
                        else r)
                (tasksTable s)) \<and>
         (mode = DeleteTasks \<longrightarrow>
            tasksTable s' = filter (\<lambda>r. categoryId (snd r) \<noteq> Some i) (tasksTable s))"
proof -
  have res: "fst (categories_remove c i mode s) = Inr i"
    by (simp add: categories_remove_success [OF assms(1-4)])
  have cat: "getCategoryById s' i = None"
    by (simp add: assms(6) categories_remove_success [OF assms(1-4)] deleteCategory_proj)
  have unl: "tasksTable (snd (categories_remove c i Unlink s)) =
      map (\<lambda>r. if categoryId (snd r) = Some i
                then (fst r, (snd r)\<lparr>categoryId := None, updatedAt := now c\<rparr>) else r)
        (tasksTable s)"
    by (simp add: categories_remove_success [OF assms(1-4)] deleteCategory_proj
        unlink_loop [OF assms(5)])
  have del: "tasksTable (snd (categories_remove c i DeleteTasks s)) =
      filter (\<lambda>r. categoryId (snd r) \<noteq> Some i) (tasksTable s)"
    by (simp add: categories_remove_success [OF assms(1-4)] deleteCategory_proj
        deleteTasks_loop [OF assms(5)])
  from res cat unl del show ?thesis
    by (cases mode) (simp_all add: assms(6))
qed

lemma ex_get_category: "getCategoryById ex_db 7 = Some ex_category"
  by (simp add: getCategoryById_def ex_db_def db_get_def ex_category_def)

lemma ex_db_distinct: "distinct (map fst (tasksTable ex_db))"
  by (simp add: ex_db_def)

lemma ex_db_tasks:
  "tasksTable ex_db =
     [(12, (ex_task ''bob'' Todo 9)\<lparr>categoryId := None\<rparr>), (11, ex_task ''alice'' Todo 4),
      (10, ex_task ''alice'' Todo 2)]"
  by (simp add: ex_db_def)

lemma ex_unlinked:
  "tasksTable (snd (categories_remove ex_ctx 7 Unlink ex_db)) =
     [(12, (ex_task ''bob'' Todo 9)\<lparr>categoryId := None\<rparr>),
      (11, (ex_task ''alice'' Todo 4)\<lparr>categoryId := None, updatedAt := 1700000000000\<rparr>),
      (10, (ex_task ''alice'' Todo 2)\<lparr>categoryId := None, updatedAt := 1700000000000\<rparr>)]"
proof -
  have c: "cat_userId ex_category = ''alice''" by (simp add: ex_category_def)
  show ?thesis
    by (simp add: categories_remove_success [OF ex_ctx_simps(1) ex_ctx_simps(3) ex_get_category c]
        deleteCategory_proj unlink_loop [OF ex_db_distinct] ex_db_tasks ex_ctx_simps)
       (simp add: ex_task_def)
qed

text \<open>
  Unlinking goes through \<open>updateTask\<close>, which stamps \<open>updatedAt\<close> on every patch: a
  task that referenced the category is not "otherwise unchanged".
\<close>

theorem unlink_stamps_updatedAt_counterexample:
  "getTaskById ex_db 11 = Some (ex_task ''alice'' Todo 4) \<and>
   categoryId (ex_task ''alice'' Todo 4) = Some 7 \<and>
   updatedAt (ex_task ''alice'' Todo 4) = 1690000000000 \<and>
   map_option updatedAt (getTaskById (snd (categories_remove ex_ctx 7 Unlink ex_db)) 11) =
     Some 1700000000000 \<and>
   getTaskById (snd (categories_remove ex_ctx 7 Unlink ex_db)) 11 \<noteq>
     Some ((ex_task ''alice'' Todo 4)\<lparr>categoryId := None\<rparr>)"
proof -
  have "getTaskById (snd (categories_remove ex_ctx 7 Unlink ex_db)) 11 =
      Some ((ex_task ''alice'' Todo 4)\<lparr>categoryId := None, updatedAt := 1700000000000\<rparr>)"
    by (simp add: getTaskById_def ex_unlinked db_get_def)
  with ex_get_task_1 show ?thesis by (simp add: ex_task_def)
qed

theorem category_remove_modes_witness:
  "authUser ex_ctx = Some ''alice'' \<and> ok (rateLimit ex_ctx ''deleteCategory'' ''alice'') \<and>
   getCategoryById ex_db 7 = Some ex_category \<and> cat_userId ex_category = ''alice'' \<and>
   distinct (map fst (tasksTable ex_db)) \<and>
   fst (categories_remove ex_ctx 7 Unlink ex_db) = Inr 7 \<and>
   getCategoryById (snd (categories_remove ex_ctx 7 Unlink ex_db)) 7 = None \<and>
   tasksTable (snd (categories_remove ex_ctx 7 Unlink ex_db)) =
     [(12, (ex_task ''bob'' Todo 9)\<lparr>categoryId := None\<rparr>),
      (11, (ex_task ''alice'' Todo 4)\<lparr>categoryId := None, updatedAt := 1700000000000\<rparr>),
      (10, (ex_task ''alice'' Todo 2)\<lparr>categoryId := None, updatedAt := 1700000000000\<rparr>)] \<and>
   fst (categories_remove ex_ctx 7 DeleteTasks ex_db) = Inr 7 \<and>
   getCategoryById (snd (categories_remove ex_ctx 7 DeleteTasks ex_db)) 7 = None \<and>
   tasksTable (snd (categories_remove ex_ctx 7 DeleteTasks ex_db)) =
     [(12, (ex_task ''bob'' Todo 9)\<lparr>categoryId := None\<rparr>)]"
proof -
  have c: "cat_userId ex_category = ''alice''" by (simp add: ex_category_def)
  note u = category_remove_modes
    [OF ex_ctx_simps(1) ex_ctx_simps(3) ex_get_category c ex_db_distinct refl, of Unlink]
  note d = category_remove_modes
    [OF ex_ctx_simps(1) ex_ctx_simps(3) ex_get_category c ex_db_distinct refl, of DeleteTasks]
  from d have "tasksTable (snd (categories_remove ex_ctx 7 DeleteTasks ex_db)) =
      filter (\<lambda>r. categoryId (snd r) \<noteq> Some 7) (tasksTable ex_db)"
    by simp
  then have del: "tasksTable (snd (categories_remove ex_ctx 7 DeleteTasks ex_db)) =
     [(12, (ex_task ''bob'' Todo 9)\<lparr>categoryId := None\<rparr>)]"
    by (simp add: ex_db_tasks ex_task_def)
  from u d del c show ?thesis
    by (simp add: ex_ctx_simps ex_get_category ex_db_distinct ex_unlinked)
qed

section \<open>Status changes that bypass the completion timestamp\<close>

lemma getTaskById_archiveTask:
  "getTaskById (archiveTask c i s) j =
     (if j = i then map_option (\<lambda>t. t\<lparr>status := Archived, updatedAt := now c\<rparr>) (getTaskById s i)
      else getTaskById s j)"
  by (simp add: archiveTask_def getTaskById_db_patch_tasks)

lemma tasks_complete_task:
  assumes "authUser c = Some u" and "getTaskById s i = Some t" and "userId t = u"
  shows "getTaskById (snd (tasks_complete c i s)) i =
         Some (t\<lparr>status := Completed, completedAt := Some (now c), updatedAt := now c\<rparr>)"
  using assms
  by (simp add: tasks_complete_def logTaskCompleted_def getTaskById_completeTask case_prod_unfold)

lemma tasks_archive_task:
  assumes "authUser c = Some u" and "getTaskById s i = Some t" and "userId t = u"
  shows "getTaskById (snd (tasks_archive c i s)) i =
         Some (t\<lparr>status := Archived, updatedAt := now c\<rparr>)"
  using assms
  by (simp add: tasks_archive_def logStatusChanged_def getTaskById_archiveTask case_prod_unfold)

lemma ex_status_update_ok:
  "fst (tasks_update ex_ctx (ex_status_args st) s) = Inr 11"
  if "getTaskById s 11 = Some t" and "userId t = ''alice''"
proof -
  have "fst (tasks_update ex_ctx (ex_status_args st) s) = Inr (ua_id (ex_status_args st))"
    using that
    by (intro tasks_update_success [where u = "''alice''" and t = t])
       (simp_all add: ex_ctx_simps ex_status_args_def descriptionRejected_def tagsRejected_def
          dueDateRejected_def)
  then show ?thesis by (simp add: ex_status_args_def)
qed

text \<open>
  C1. The claim: after every handler operation the completion timestamp is set if and
  only if the status is completed. The complete and reopen handlers keep this; the
  update handler and the archive handler do not. On a todo task, update with status
  completed yields a completed task without a completion timestamp; on a completed
  task, archive and update with status todo leave the completion timestamp in place.
\<close>

theorem update_to_completed_leaves_completedAt_unset:
  "getTaskById ex_db 11 = Some (ex_task ''alice'' Todo 4) \<and>
   fst (tasks_update ex_ctx (ex_status_args Completed) ex_db) = Inr 11 \<and>
   map_option status (getTaskById (snd (tasks_update ex_ctx (ex_status_args Completed) ex_db)) 11) =
     Some Completed \<and>
   map_option completedAt
     (getTaskById (snd (tasks_update ex_ctx (ex_status_args Completed) ex_db)) 11) = Some None \<and>
   map_option status
     (getTaskById (snd (tasks_archive ex_ctx 11 (snd (tasks_complete ex_ctx 11 ex_db)))) 11) =
     Some Archived \<and>
   map_option completedAt
     (getTaskById (snd (tasks_archive ex_ctx 11 (snd (tasks_complete ex_ctx 11 ex_db)))) 11) =
     Some (Some 1700000000000) \<and>
   map_option status
     (getTaskById (snd (tasks_update ex_ctx (ex_status_args Todo)
        (snd (tasks_complete ex_ctx 11 ex_db)))) 11) = Some Todo \<and>
   map_option completedAt
     (getTaskById (snd (tasks_update ex_ctx (ex_status_args Todo)
        (snd (tasks_complete ex_ctx 11 ex_db)))) 11) = Some (Some 1700000000000)"
proof -
  have u: "userId (ex_task ''alice'' Todo 4) = ''alice''" by (simp add: ex_task_simps)
  have ok1: "fst (tasks_update ex_ctx (ex_status_args Completed) ex_db) = Inr 11"
    by (rule ex_status_update_ok [OF ex_get_task_1 u])
  have a: "getTaskById (snd (tasks_update ex_ctx (ex_status_args Completed) ex_db)) 11 =
      Some (apply_update (updateArgs (ex_status_args Completed)) (now ex_ctx)
              (ex_task ''alice'' Todo 4))"
    using tasks_update_task [OF ok1] ex_get_task_1 by (simp add: ex_status_args_def)
  define t1 where "t1 = (ex_task ''alice'' Todo 4)
      \<lparr>status := Completed, completedAt := Some (now ex_ctx), updatedAt := now ex_ctx\<rparr>"
  have c: "getTaskById (snd (tasks_complete ex_ctx 11 ex_db)) 11 = Some t1"
    unfolding t1_def by (rule tasks_complete_task [OF ex_ctx_simps(1) ex_get_task_1 u])
  have u1: "userId t1 = ''alice''" by (simp add: t1_def ex_task_simps)
  have b: "getTaskById (snd (tasks_archive ex_ctx 11 (snd (tasks_complete ex_ctx 11 ex_db)))) 11 =
      Some (t1\<lparr>status := Archived, updatedAt := now ex_ctx\<rparr>)"
    by (rule tasks_archive_task [OF ex_ctx_simps(1) c u1])
  have ok2: "fst (tasks_update ex_ctx (ex_status_args Todo)
      (snd (tasks_complete ex_ctx 11 ex_db))) = Inr 11"
    by (rule ex_status_update_ok [OF c u1])
  have d: "getTaskById (snd (tasks_update ex_ctx (ex_status_args Todo)
        (snd (tasks_complete ex_ctx 11 ex_db)))) 11 =
      Some (apply_update (updateArgs (ex_status_args Todo)) (now ex_ctx) t1)"
    using tasks_update_task [OF ok2] c by (simp add: ex_status_args_def)
  have au: "apply_update (updateArgs (ex_status_args st)) n t = t\<lparr>status := st, updatedAt := n\<rparr>"
    for st n t
    by (simp add: apply_update_def updateArgs_def ex_status_args_def apply_required_def
        apply_field_def of_optional_def)
  show ?thesis
    by (simp add: ex_get_task_1 ok1 a b d au t1_def ex_task_simps ex_ctx_simps)
qed

section \<open>The completion rate\<close>

lemma js_divide_23_40: "js_divide 23 40 = 5179139571476070 * 2 powi (- 53)"
proof -
  have "to_double (23 / 40) = of_int 5179139571476070 * 2 powi (- 1 - 52)"
    by (rule to_double_eqI) (simp_all add: round_half_even_def Let_def floor_rat_numeral)
  then show ?thesis by (simp add: js_divide_def)
qed

lemma js_multiply_23_40_100:
  "js_multiply (5179139571476070 * 2 powi (- 53)) 100 = 8092405580431359 * 2 powi (- 47)"
proof -
  have "to_double (64739244643450875 / 1125899906842624) =
        of_int 8092405580431359 * 2 powi (5 - 52)"
    by (rule to_double_eqI) (simp_all add: round_half_even_def Let_def floor_rat_numeral)
  then show ?thesis by (simp add: js_multiply_def)
qed

lemma js_rate_23_of_40: "Math_round (js_multiply (js_divide 23 40) 100) = 57"
  by (simp only: js_divide_23_40 js_multiply_23_40_100)
     (simp add: Math_round_def floor_rat_numeral)

lemma exact_rate_23_of_40: "Math_round (100 * 23 / (40 - 0)) = 58"
  by (simp add: Math_round_def floor_rat_numeral)

lemma ex_rate_tasks:
  "getTasksByUser ex_rate_db ''alice'' = tasksTable ex_rate_db"
  by (simp add: getTasksByUser_def ex_rate_db_def filter_map o_def ex_task_simps
      del: upt_rec_numeral)

lemma ex_rate_counts:
  "length (tasksTable ex_rate_db) = 40"
  "length (filter (\<lambda>r. status (snd r) = Completed) (tasksTable ex_rate_db)) = 23"
  "length (filter (\<lambda>r. status (snd r) \<noteq> Archived) (tasksTable ex_rate_db)) = 40"
  by (simp_all add: ex_rate_db_def filter_map o_def ex_task_simps del: upt_rec_numeral)

lemma js_rate_multiply_first: "Math_round (js_divide (js_multiply 100 23) 40) = 58"
proof -
  have "to_double (100 * 23) = of_int 5057753487769600 * 2 powi (11 - 52)"
    by (rule to_double_eqI) (simp_all add: round_half_even_def Let_def floor_rat_numeral)
  then have m: "js_multiply 100 23 = 2300"
    by (simp add: js_multiply_def)
  have "to_double (2300 / 40) = of_int 8092405580431360 * 2 powi (5 - 52)"
    by (rule to_double_eqI) (simp_all add: round_half_even_def Let_def floor_rat_numeral)
  then have d: "js_divide 2300 40 = 115 / 2"
    by (simp add: js_divide_def)
  show ?thesis
    by (simp only: m d) (simp add: Math_round_def)
qed

lemma completionRate_without_active_tasks:
  assumes "authUser c = Some u"
    and "filter (\<lambda>r. status (snd r) \<noteq> Archived) (getTasksByUser s u) = []"
  shows "map_sum id completionRate (dashboard_summary c s) = Inr 0"
  using assms by (simp add: dashboard_summary_def Let_def)

text \<open>
  C5. The claim: the completion rate is \<open>round (100 * completed / (total - archived))\<close>,
  and 0 when nothing is left after the archived tasks. The code computes
  \<open>Math.round((completed / active) * 100)\<close> in double precision. For 40 active tasks
  of which 23 are completed the quotient 0.575 is not a double, the product is
  57.49999999999999 and the summary reports 57, where the claimed formula (evaluated
  exactly, or in doubles with the multiplication first) gives 58.
\<close>

theorem completionRate_23_of_40:
  "map_sum id totalTasks (dashboard_summary ex_ctx ex_rate_db) = Inr 40 \<and>
   map_sum id completedTasks (dashboard_summary ex_ctx ex_rate_db) = Inr 23 \<and>
   map_sum id completionRate (dashboard_summary ex_ctx ex_rate_db) = Inr 57 \<and>
   Math_round (100 * 23 / (40 - 0)) = 58 \<and>
   Math_round (js_divide (js_multiply 100 23) 40) = 58"
proof -
  have "map_sum id completionRate (dashboard_summary ex_ctx ex_rate_db) =
        Inr (if (40::nat) > 0 then Math_round (js_multiply (js_divide (of_nat 23) (of_nat 40)) 100)
             else 0)"
    by (simp add: dashboard_summary_def ex_ctx_simps ex_rate_tasks ex_rate_counts Let_def
        del: length_greater_0_conv of_nat_numeral)
  then have "map_sum id completionRate (dashboard_summary ex_ctx ex_rate_db) = Inr 57"
    by (simp add: js_rate_23_of_40)
  moreover have "map_sum id totalTasks (dashboard_summary ex_ctx ex_rate_db) = Inr 40"
    and "map_sum id completedTasks (dashboard_summary ex_ctx ex_rate_db) = Inr 23"
    by (simp_all add: dashboard_summary_def ex_ctx_simps ex_rate_tasks ex_rate_counts Let_def)
  ultimately show ?thesis
    using exact_rate_23_of_40 js_rate_multiply_first by blast
qed

section \<open>Searching tasks\<close>

lemma searchTasks_scoped:
  "r \<in> set (searchTasks c s u q st) \<Longrightarrow>
   r \<in> set (tasksTable s) \<and> userId (snd r) = u \<and> searchMatches c q (title (snd r)) \<and>
   (\<forall>x. st = Some x \<longrightarrow> status (snd r) = x)"
  by (auto simp: searchTasks_def)

text \<open>
  C8. The claim: search results are the user's tasks that match (the lemma above) and
  their number never exceeds a fixed maximum. \<open>searchTasks\<close> ends its query with
  \<open>collect()\<close>; the constant \<open>MAX_SEARCH_RESULTS\<close> is never applied. With 101
  matching tasks the search returns all 101.
\<close>

theorem search_returns_101_results:
  "map_sum id length (tasks_search ex_ctx ''Write'' None ex_search_db) = Inr 101 \<and>
   length (searchTasks ex_ctx ex_search_db ''alice'' ''Write'' None) = 101 \<and>
   MAX_SEARCH_RESULTS = 100"
proof -
  have m: "searchMatches ex_ctx ''Write'' (title (ex_task u st ord))" for u st ord
    by (simp add: ex_ctx_def ex_task_def)
  have l: "length (searchTasks ex_ctx ex_search_db ''alice'' ''Write'' None) = 101"
    by (simp add: searchTasks_def ex_search_db_def filter_map o_def m ex_task_simps
        del: upt_rec_numeral)
  have t: "trim ''Write'' = ''Write''"
    by (simp add: trim_def isSpace_def)
  show ?thesis
    by (simp add: tasks_search_def ex_ctx_simps t l MAX_SEARCH_RESULTS_def)
qed

end
